theory Spec2Isabelle
  imports Complex_Main "HOL-Library.Word" "HOL-Library.Log_Nat"
begin

section \<open>RemindX: the sketch \<open>RemindX_Final.ino\<close> as a state machine\<close>

text \<open>
  The sketch runs on an Arduino Uno class board (the MFRC522 is wired to pins 10 and 9):
  \<open>unsigned long\<close> and \<open>long\<close> have 32 bits, \<open>byte\<close> has 8, and \<open>double\<close> is the
  IEEE 754 single format (24 significant bits). \<open>millis()\<close> wraps modulo \<open>2 ^ 32\<close>, and so
  does every difference of two clock values.

  One call of \<open>loop()\<close> is a function from the state before and the values the hardware
  hands to that call (clock, button level, card reader, echo pulse) to the state after.
  The state holds the global variables, the two \<open>static\<close> locals of \<open>buttonPressed\<close>, the
  levels of the output pins and the sequence of everything the sketch has sent to the
  outside: pin writes, lines on the serial port, pauses and the halt command of the reader.
\<close>

type_synonym byte = "8 word"
type_synonym ulong = "32 word"

abbreviation HIGH :: bool where "HIGH \<equiv> True"
abbreviation LOW :: bool where "LOW \<equiv> False"

datatype pin = LED_PIN | BUZZER_PIN | TRIG_PIN

text \<open>
  The lines printed on the serial port, one constructor for each \<open>Serial.println\<close> of the
  sketch. \<open>CardUID bs\<close> is the line \<open>Card UID: \<close> followed by the bytes \<open>bs\<close> in
  hexadecimal; \<open>MotionDetected d\<close> carries the printed distance.
\<close>

datatype serial_line =
    Ready
  | VipManual
  | VipAllCards
  | VipEnded
  | AckButton
  | AckCard
  | CardUID "byte list"
  | MotionDetected int
  | MotionVip

datatype event =
    DigitalWrite pin bool
  | Println serial_line
  | Delay nat
  | DelayMicroseconds nat
  | PICC_HaltA

record button_state =
  lastBounce :: ulong
  lastState :: bool

record state =
  alertActive :: bool
  lastMotionTime :: ulong
  card1Scanned :: bool
  card2Scanned :: bool
  card3Scanned :: bool
  vipMode :: bool
  vipStartTime :: ulong
  buzzerState :: bool
  lastBuzzerToggle :: ulong
  button :: button_state
  led :: bool
  buzzer :: bool
  trig :: bool
  trace :: "event list"

text \<open>
  What one call of \<open>buttonPressed\<close> reads: the level of the button pin, the clock at the
  assignment to \<open>lastBounce\<close> (read only when the level has changed) and the clock in the
  comparison with the debounce window.
\<close>

record button_read =
  level :: bool
  tChange :: ulong
  tCheck :: ulong

text \<open>The reader's \<open>Uid\<close> structure: the number of valid bytes and the 10 byte buffer.\<close>

record Uid =
  uid_size :: nat
  uidByte :: "byte list"

text \<open>
  What one call of \<open>loop\<close> reads: \<open>now\<close> is the clock at its first line; \<open>poll1\<close> and
  \<open>poll2\<close> are the readings of the first and of the second call of \<open>buttonPressed\<close> (the
  second happens only while an alert is active); \<open>card\<close> is \<open>Some u\<close> when
  \<open>PICC_IsNewCardPresent() && PICC_ReadCardSerial()\<close> holds, with \<open>u\<close> the structure
  read; \<open>echo\<close> is the result of \<open>pulseIn\<close>, 0 on a timeout.
\<close>

record tick_input =
  now :: ulong
  poll1 :: button_read
  poll2 :: button_read
  card :: "Uid option"
  echo :: ulong

subsection \<open>Constants\<close>

definition uid1 :: "byte list" where "uid1 = [0x07, 0xB6, 0x52, 0x8D]"
definition uid2 :: "byte list" where "uid2 = [0xFA, 0x8E, 0xFD, 0xC6]"
definition uid3 :: "byte list" where "uid3 = [0xDC, 0xAC, 0xC1, 0x01]"

definition motionCooldown :: ulong where "motionCooldown = 1500"
definition MOTION_THRESHOLD_CM :: int where "MOTION_THRESHOLD_CM = 20"
definition vipDuration :: ulong where "vipDuration = 30000"
definition buzzerInterval :: ulong where "buzzerInterval = 1000"

subsection \<open>Output primitives\<close>

definition emit :: "event \<Rightarrow> state \<Rightarrow> state" where
  "emit e s = s\<lparr>trace := trace s @ [e]\<rparr>"

definition digitalWrite :: "pin \<Rightarrow> bool \<Rightarrow> state \<Rightarrow> state" where
  "digitalWrite p v s =
     emit (DigitalWrite p v)
       (case p of
          LED_PIN \<Rightarrow> s\<lparr>led := v\<rparr>
        | BUZZER_PIN \<Rightarrow> s\<lparr>buzzer := v\<rparr>
        | TRIG_PIN \<Rightarrow> s\<lparr>trig := v\<rparr>)"

definition println :: "serial_line \<Rightarrow> state \<Rightarrow> state" where
  "println l s = emit (Println l) s"

definition delay :: "nat \<Rightarrow> state \<Rightarrow> state" where
  "delay ms s = emit (Delay ms) s"

definition delayMicroseconds :: "nat \<Rightarrow> state \<Rightarrow> state" where
  "delayMicroseconds us s = emit (DelayMicroseconds us) s"

subsection \<open>Helper functions of the sketch\<close>

text \<open>
  \<open>compareUID\<close> walks both arrays from index 0 and returns false at the first difference.
  Every call passes the reader's 10 byte buffer, a stored 4 byte UID and the size 4, so
  the walk stays inside both arrays; where a list is shorter than \<open>size\<close> the model
  answers false.
\<close>

fun compareUID :: "byte list \<Rightarrow> byte list \<Rightarrow> nat \<Rightarrow> bool" where
  "compareUID a b 0 = True"
| "compareUID (x # a) (y # b) (Suc n) = (if x \<noteq> y then False else compareUID a b n)"
| "compareUID _ _ (Suc n) = False"

text \<open>
  Single precision arithmetic. \<open>rne\<close> rounds a rational to the nearest integer, a tie to
  the even one; \<open>fexp p x\<close> is the exponent of the last of \<open>p\<close> significant bits of
  \<open>x\<close>; \<open>fl p x\<close> is the nearest number with \<open>p\<close> significant bits. The exponent range
  of the format plays no role for the magnitudes that occur here (between \<open>2 ^ -5\<close> and
  \<open>2 ^ 28\<close>).
\<close>

definition rne :: "rat \<Rightarrow> int" where
  "rne y = (let f = \<lfloor>y\<rfloor>; d = y - of_int f in
     if d < 1 / 2 then f else if 1 / 2 < d then f + 1 else if even f then f else f + 1)"

definition fexp :: "nat \<Rightarrow> rat \<Rightarrow> int" where
  "fexp p x = (let (a, b) = quotient_of \<bar>x\<bar>; k = bitlen a - bitlen b
     in (if 2 powi k \<le> \<bar>x\<bar> then k else k - 1) - (int p - 1))"

definition fl :: "nat \<Rightarrow> rat \<Rightarrow> rat" where
  "fl p x = (if x = 0 then 0 else of_int (rne (x / 2 powi fexp p x)) * 2 powi fexp p x)"

text \<open>
  The expression \<open>dur * 0.034 / 2\<close> of \<open>readDistanceCM\<close>: \<open>dur\<close> is converted to
  \<open>double\<close>, multiplied by the constant nearest to 0.034, divided by 2, each operation
  rounded, and the \<open>return\<close> converts to \<open>long\<close>, which drops the fraction. The value is
  at most \<open>2 ^ 32 * 0.017\<close> and fits a \<open>long\<close>, so the result is an \<open>int\<close>.
\<close>

definition pulseToCM :: "ulong \<Rightarrow> int" where
  "pulseToCM dur =
     \<lfloor>fl 24 (fl 24 (fl 24 (of_nat (unat dur)) * fl 24 (34 / 1000)) / fl 24 2)\<rfloor>"

text \<open>
  \<open>readDistanceCM\<close>: the trigger pulse, then \<open>pulseIn\<close>, whose result is the argument
  \<open>dur\<close>.
\<close>

definition readDistanceCM :: "ulong \<Rightarrow> state \<Rightarrow> int \<times> state" where
  "readDistanceCM dur s =
     (let s1 = digitalWrite TRIG_PIN LOW s;
          s2 = delayMicroseconds 2 s1;
          s3 = digitalWrite TRIG_PIN HIGH s2;
          s4 = delayMicroseconds 10 s3;
          s5 = digitalWrite TRIG_PIN LOW s4
      in if dur = 0 then (- 1, s5) else (pulseToCM dur, s5))"

definition buttonPressed :: "button_read \<Rightarrow> button_state \<Rightarrow> bool \<times> button_state" where
  "buttonPressed r b =
     (let cur = level r;
          b1 = (if cur \<noteq> lastState b then b\<lparr>lastBounce := tChange r, lastState := cur\<rparr> else b)
      in if 40 < tCheck r - lastBounce b1 \<and> cur = LOW
         then (True, b1\<lparr>lastState := LOW\<rparr>)
         else (False, b1))"

subsection \<open>Setup\<close>

text \<open>The initialisers of the global and static variables; every pin is low after reset.\<close>

definition globals0 :: state where
  "globals0 = \<lparr>alertActive = False, lastMotionTime = 0,
     card1Scanned = False, card2Scanned = False, card3Scanned = False,
     vipMode = False, vipStartTime = 0, buzzerState = False, lastBuzzerToggle = 0,
     button = \<lparr>lastBounce = 0, lastState = HIGH\<rparr>,
     led = LOW, buzzer = LOW, trig = LOW, trace = []\<rparr>"

definition setup_sketch :: "state \<Rightarrow> state" where
  "setup_sketch s = println Ready (digitalWrite BUZZER_PIN LOW (digitalWrite LED_PIN LOW s))"

subsection \<open>The main loop\<close>

text \<open>Manual VIP mode via button (the first \<open>if\<close> of \<open>loop\<close>).\<close>

definition vipManual :: "tick_input \<Rightarrow> state \<Rightarrow> state" where
  "vipManual i s =
     (case buttonPressed (poll1 i) (button s) of (pressed, b) \<Rightarrow>
        let s1 = s\<lparr>button := b\<rparr>
        in if pressed \<and> \<not> vipMode s1
           then println VipManual (s1\<lparr>vipMode := True, vipStartTime := now i\<rparr>)
           else s1)"

text \<open>Automatic VIP mode if all cards scanned.\<close>

definition vipAuto :: "tick_input \<Rightarrow> state \<Rightarrow> state" where
  "vipAuto i s =
     (if \<not> vipMode s \<and> card1Scanned s \<and> card2Scanned s \<and> card3Scanned s
      then println VipAllCards (s\<lparr>vipMode := True, vipStartTime := now i\<rparr>)
      else s)"

text \<open>VIP cooldown expiration.\<close>

definition vipExpire :: "tick_input \<Rightarrow> state \<Rightarrow> state" where
  "vipExpire i s =
     (if vipMode s \<and> vipDuration < now i - vipStartTime s
      then let s1 = println VipEnded
                      (s\<lparr>vipMode := False, card1Scanned := False,
                         card2Scanned := False, card3Scanned := False\<rparr>)
           in if \<not> alertActive s1 then digitalWrite LED_PIN LOW s1 else s1
      else s)"

text \<open>The three steps at the head of \<open>loop\<close>, in the order of the source.\<close>

definition vipSteps :: "tick_input \<Rightarrow> state \<Rightarrow> state" where
  "vipSteps i s = vipExpire i (vipAuto i (vipManual i s))"

definition knownCard :: "Uid \<Rightarrow> bool" where
  "knownCard u = (compareUID (uidByte u) uid1 4 \<or> compareUID (uidByte u) uid2 4
     \<or> compareUID (uidByte u) uid3 4)"

text \<open>Alert handling: the body of \<open>if (alertActive)\<close>, which always returns.\<close>

definition alertHandling :: "tick_input \<Rightarrow> state \<Rightarrow> state" where
  "alertHandling i s =
     (case buttonPressed (poll2 i) (button s) of (pressed, b) \<Rightarrow>
        let s1 = s\<lparr>button := b\<rparr>
        in if pressed
           then delay 200 (println AckButton
                  (digitalWrite LED_PIN (if vipMode s1 then HIGH else LOW)
                    (digitalWrite BUZZER_PIN LOW (s1\<lparr>alertActive := False\<rparr>))))
           else
             (case card i of
                Some u \<Rightarrow>
                  let s2 = (if knownCard u
                            then println AckCard
                                   (digitalWrite LED_PIN HIGH
                                     (digitalWrite BUZZER_PIN LOW (s1\<lparr>alertActive := False\<rparr>)))
                            else s1)
                  in delay 200 (emit PICC_HaltA s2)
              | None \<Rightarrow>
                  let s2 = (if \<not> vipMode s1
                            then (if buzzerInterval \<le> now i - lastBuzzerToggle s1
                                  then let s' = s1\<lparr>buzzerState := \<not> buzzerState s1\<rparr>
                                       in (digitalWrite BUZZER_PIN
                                             (if buzzerState s' then HIGH else LOW) s')
                                            \<lparr>lastBuzzerToggle := now i\<rparr>
                                  else s1)
                            else digitalWrite BUZZER_PIN LOW s1)
                  in delay 20 (digitalWrite LED_PIN HIGH s2)))"

text \<open>RFID card scan while no alert is active.\<close>

definition cardScan :: "tick_input \<Rightarrow> Uid \<Rightarrow> state \<Rightarrow> state" where
  "cardScan i u s =
     (let s1 = println (CardUID (take (uid_size u) (uidByte u))) s;
          s2 = (if compareUID (uidByte u) uid1 4 then s1\<lparr>card1Scanned := True\<rparr> else s1);
          s3 = (if compareUID (uidByte u) uid2 4 then s2\<lparr>card2Scanned := True\<rparr> else s2);
          s4 = (if compareUID (uidByte u) uid3 4 then s3\<lparr>card3Scanned := True\<rparr> else s3);
          s5 = digitalWrite LED_PIN HIGH s4;
          s6 = s5\<lparr>lastMotionTime := now i\<rparr>
      in delay 100 (emit PICC_HaltA s6))"

text \<open>Motion detection, up to the \<open>delay(40)\<close> that ends \<open>loop\<close>.\<close>

definition motionDetection :: "tick_input \<Rightarrow> state \<Rightarrow> state" where
  "motionDetection i s =
     (let s1 =
        (if motionCooldown < now i - lastMotionTime s
         then (case readDistanceCM (echo i) s of (cm, sa) \<Rightarrow>
                 if 0 < cm \<and> cm \<le> MOTION_THRESHOLD_CM
                 then let sb =
                        (if \<not> vipMode sa
                         then println (MotionDetected cm)
                                (digitalWrite LED_PIN HIGH
                                  (digitalWrite BUZZER_PIN HIGH
                                    (sa\<lparr>alertActive := True, buzzerState := True,
                                        lastBuzzerToggle := now i\<rparr>)))
                         else digitalWrite LED_PIN HIGH (println MotionVip sa))
                      in sb\<lparr>lastMotionTime := now i\<rparr>
                 else sa)
         else s)
      in delay 40 s1)"

definition loop :: "state \<Rightarrow> tick_input \<Rightarrow> state" where
  "loop s i =
     (let s1 = vipSteps i s
      in if alertActive s1 then alertHandling i s1
         else (case card i of
                 Some u \<Rightarrow> cardScan i u s1
               | None \<Rightarrow> motionDetection i s1))"

text \<open>A run: \<open>loop\<close> called once for each element of a list of inputs.\<close>

definition run :: "state \<Rightarrow> tick_input list \<Rightarrow> state" where
  "run s ins = foldl loop s ins"

subsection \<open>Observations of one call of \<open>loop\<close>\<close>

text \<open>
  \<open>pressed1\<close> is what the first call of \<open>buttonPressed\<close> returns, \<open>button1\<close> the static
  variables it leaves, \<open>pressed2\<close> what the second call (the one that acknowledges an
  alert) returns when it is made, \<open>button2\<close> the static variables after it.
\<close>

definition pressed1 :: "state \<Rightarrow> tick_input \<Rightarrow> bool" where
  "pressed1 s i = fst (buttonPressed (poll1 i) (button s))"

definition button1 :: "state \<Rightarrow> tick_input \<Rightarrow> button_state" where
  "button1 s i = snd (buttonPressed (poll1 i) (button s))"

definition pressed2 :: "state \<Rightarrow> tick_input \<Rightarrow> bool" where
  "pressed2 s i = fst (buttonPressed (poll2 i) (button1 s i))"

definition button2 :: "state \<Rightarrow> tick_input \<Rightarrow> button_state" where
  "button2 s i = snd (buttonPressed (poll2 i) (button1 s i))"

text \<open>What the sketch has sent to the outside between two states, and during one call.\<close>

definition emitted :: "state \<Rightarrow> state \<Rightarrow> event list" where
  "emitted s s' = drop (length (trace s)) (trace s')"

definition tickEvents :: "state \<Rightarrow> tick_input \<Rightarrow> event list" where
  "tickEvents s i = emitted s (loop s i)"

text \<open>
  The motion test of \<open>loop\<close>: the cooldown is over and \<open>readDistanceCM\<close> returns a value
  above 0 and at most the threshold.
\<close>

definition motionSeen :: "state \<Rightarrow> tick_input \<Rightarrow> bool" where
  "motionSeen s i = (motionCooldown < now i - lastMotionTime s \<and> echo i \<noteq> 0
     \<and> 0 < pulseToCM (echo i) \<and> pulseToCM (echo i) \<le> MOTION_THRESHOLD_CM)"

text \<open>The pin writes and pauses of the trigger pulse in \<open>readDistanceCM\<close>.\<close>

definition trigPulse :: "event list" where
  "trigPulse = [DigitalWrite TRIG_PIN LOW, DelayMicroseconds 2, DigitalWrite TRIG_PIN HIGH,
     DelayMicroseconds 10, DigitalWrite TRIG_PIN LOW]"

text \<open>The results of successive calls of \<open>buttonPressed\<close>.\<close>

fun pollAll :: "button_state \<Rightarrow> button_read list \<Rightarrow> bool list" where
  "pollAll b [] = []"
| "pollAll b (r # rs) = fst (buttonPressed r b) # pollAll (snd (buttonPressed r b)) rs"

subsection \<open>Concrete states and inputs\<close>

text \<open>The state in which \<open>loop\<close> is called for the first time.\<close>

definition boot :: state where
  "boot = setup_sketch globals0"

text \<open>
  Inputs of one call of \<open>loop\<close> at clock value \<open>t\<close>: \<open>idleTick\<close> with the button
  released, no card and no echo; \<open>pressTick\<close> with the button held down. \<open>cardOf bs\<close> is
  what the reader holds after reading a card with the 4 byte UID \<open>bs\<close>.
\<close>

definition idleTick :: "ulong \<Rightarrow> tick_input" where
  "idleTick t = \<lparr>now = t, poll1 = \<lparr>level = HIGH, tChange = t, tCheck = t\<rparr>,
     poll2 = \<lparr>level = HIGH, tChange = t, tCheck = t\<rparr>, card = None, echo = 0\<rparr>"

definition pressTick :: "ulong \<Rightarrow> tick_input" where
  "pressTick t = \<lparr>now = t, poll1 = \<lparr>level = LOW, tChange = t, tCheck = t\<rparr>,
     poll2 = \<lparr>level = LOW, tChange = t, tCheck = t\<rparr>, card = None, echo = 0\<rparr>"

definition cardOf :: "byte list \<Rightarrow> Uid" where
  "cardOf bs = \<lparr>uid_size = 4, uidByte = bs @ replicate 6 0\<rparr>"

text \<open>
  \<open>motionTick t\<close>: an echo of 883 microseconds, which is 15 cm. \<open>cardTick t bs\<close>: a card
  with UID \<open>bs\<close> in the field.
\<close>

definition motionTick :: "ulong \<Rightarrow> tick_input" where
  "motionTick t = (idleTick t)\<lparr>echo := 883\<rparr>"

definition cardTick :: "ulong \<Rightarrow> byte list \<Rightarrow> tick_input" where
  "cardTick t bs = (idleTick t)\<lparr>card := Some (cardOf bs)\<rparr>"

text \<open>The state after \<open>boot\<close> and one call of \<open>loop\<close> that sees motion at clock 2000.\<close>

definition alerted :: state where
  "alerted = \<lparr>alertActive = True, lastMotionTime = 2000,
     card1Scanned = False, card2Scanned = False, card3Scanned = False,
     vipMode = False, vipStartTime = 0, buzzerState = True, lastBuzzerToggle = 2000,
     button = \<lparr>lastBounce = 0, lastState = HIGH\<rparr>,
     led = HIGH, buzzer = HIGH, trig = LOW,
     trace = [DigitalWrite LED_PIN LOW, DigitalWrite BUZZER_PIN LOW, Println Ready,
       DigitalWrite TRIG_PIN LOW, DelayMicroseconds 2, DigitalWrite TRIG_PIN HIGH,
       DelayMicroseconds 10, DigitalWrite TRIG_PIN LOW, DigitalWrite BUZZER_PIN HIGH,
       DigitalWrite LED_PIN HIGH, Println (MotionDetected 15), Delay 40]\<rparr>"

subsection \<open>Scans along a run\<close>

text \<open>\<open>matches c bs\<close>: the card reader holds a card whose first four bytes are \<open>bs\<close>.\<close>

definition matches :: "Uid option \<Rightarrow> byte list \<Rightarrow> bool" where
  "matches c bs = (case c of Some u \<Rightarrow> compareUID (uidByte u) bs 4 | None \<Rightarrow> False)"

text \<open>
  \<open>scanned s ins bs\<close>: in the run of \<open>ins\<close> from \<open>s\<close>, some call of \<open>loop\<close> that
  starts with \<open>vipMode\<close> false has the card \<open>bs\<close> in the field. \<open>scannedIdle\<close> asks in
  addition that no alert is active when that call starts. \<open>neverVip s ins\<close>: \<open>vipMode\<close>
  is false before every call of the run and after the last.
\<close>

fun scanned :: "state \<Rightarrow> tick_input list \<Rightarrow> byte list \<Rightarrow> bool" where
  "scanned s [] bs = False"
| "scanned s (i # ins) bs = (\<not> vipMode s \<and> matches (card i) bs \<or> scanned (loop s i) ins bs)"

fun scannedIdle :: "state \<Rightarrow> tick_input list \<Rightarrow> byte list \<Rightarrow> bool" where
  "scannedIdle s [] bs = False"
| "scannedIdle s (i # ins) bs =
     (\<not> alertActive s \<and> matches (card i) bs \<or> scannedIdle (loop s i) ins bs)"

fun neverVip :: "state \<Rightarrow> tick_input list \<Rightarrow> bool" where
  "neverVip s [] = (\<not> vipMode s)"
| "neverVip s (i # ins) = (\<not> vipMode s \<and> neverVip (loop s i) ins)"

text \<open>
  \<open>oneCard u s\<close>: VIP mode is off and every scan flag that is set belongs to a stored
  UID that the card \<open>u\<close> matches.
\<close>

definition oneCard :: "Uid \<Rightarrow> state \<Rightarrow> bool" where
  "oneCard u s = (\<not> vipMode s
     \<and> (card1Scanned s \<longrightarrow> compareUID (uidByte u) uid1 4)
     \<and> (card2Scanned s \<longrightarrow> compareUID (uidByte u) uid2 4)
     \<and> (card3Scanned s \<longrightarrow> compareUID (uidByte u) uid3 4))"

section \<open>Properties\<close>

subsection \<open>The steps of \<open>loop\<close>, one at a time\<close>

lemmas prims = emit_def digitalWrite_def println_def delay_def delayMicroseconds_def
lemmas steps = vipSteps_def vipExpire_def vipAuto_def vipManual_def

lemma vipSteps_unexpired:
  "vipMode s \<Longrightarrow> \<not> vipDuration < now i - vipStartTime s \<Longrightarrow>
   vipSteps i s = s\<lparr>button := button1 s i\<rparr>"
  by (simp add: steps button1_def case_prod_beta)

lemma vipSteps_expired:
  "vipMode s \<Longrightarrow> vipDuration < now i - vipStartTime s \<Longrightarrow>
   vipSteps i s =
     (if alertActive s
      then s\<lparr>button := button1 s i, vipMode := False, card1Scanned := False,
             card2Scanned := False, card3Scanned := False,
             trace := trace s @ [Println VipEnded]\<rparr>
      else s\<lparr>button := button1 s i, vipMode := False, card1Scanned := False,
             card2Scanned := False, card3Scanned := False, led := LOW,
             trace := trace s @ [Println VipEnded, DigitalWrite LED_PIN LOW]\<rparr>)"
  by (simp add: steps button1_def prims Let_def case_prod_beta)

lemma vipSteps_manual:
  "\<not> vipMode s \<Longrightarrow> pressed1 s i \<Longrightarrow>
   vipSteps i s = s\<lparr>button := button1 s i, vipMode := True, vipStartTime := now i,
                     trace := trace s @ [Println VipManual]\<rparr>"
  by (simp add: steps button1_def pressed1_def prims Let_def vipDuration_def case_prod_beta)

lemma vipSteps_auto:
  "\<not> vipMode s \<Longrightarrow> \<not> pressed1 s i \<Longrightarrow>
   card1Scanned s \<and> card2Scanned s \<and> card3Scanned s \<Longrightarrow>
   vipSteps i s = s\<lparr>button := button1 s i, vipMode := True, vipStartTime := now i,
                     trace := trace s @ [Println VipAllCards]\<rparr>"
  by (simp add: steps button1_def pressed1_def prims Let_def vipDuration_def case_prod_beta)

lemma vipSteps_none:
  "\<not> vipMode s \<Longrightarrow> \<not> pressed1 s i \<Longrightarrow>
   \<not> (card1Scanned s \<and> card2Scanned s \<and> card3Scanned s) \<Longrightarrow>
   vipSteps i s = s\<lparr>button := button1 s i\<rparr>"
  by (auto simp add: steps button1_def pressed1_def prims Let_def vipDuration_def case_prod_beta)

lemmas vipSteps_eqs =
  vipSteps_unexpired vipSteps_expired vipSteps_manual vipSteps_auto vipSteps_none

lemma vipSteps_cases [case_names unexpired expired manual auto none]:
  fixes s :: state and i :: tick_input
  obtains
    "vipMode s" "\<not> vipDuration < now i - vipStartTime s"
  | "vipMode s" "vipDuration < now i - vipStartTime s"
  | "\<not> vipMode s" "pressed1 s i"
  | "\<not> vipMode s" "\<not> pressed1 s i" "card1Scanned s \<and> card2Scanned s \<and> card3Scanned s"
  | "\<not> vipMode s" "\<not> pressed1 s i" "\<not> (card1Scanned s \<and> card2Scanned s \<and> card3Scanned s)"
  by blast

lemma vipSteps_frame:
  "alertActive (vipSteps i s) = alertActive s"
  "buzzer (vipSteps i s) = buzzer s"
  "trig (vipSteps i s) = trig s"
  "lastMotionTime (vipSteps i s) = lastMotionTime s"
  "buzzerState (vipSteps i s) = buzzerState s"
  "lastBuzzerToggle (vipSteps i s) = lastBuzzerToggle s"
  "button (vipSteps i s) = button1 s i"
  by (simp_all add: steps button1_def prims Let_def case_prod_beta)

lemma trace_vipSteps:
  "\<exists>es. trace (vipSteps i s) = trace s @ es
     \<and> set es \<subseteq> {Println VipManual, Println VipAllCards, Println VipEnded,
                  DigitalWrite LED_PIN LOW}"
  by (rule vipSteps_cases[of s i]) (simp_all add: vipSteps_eqs)

lemma trace_alertHandling:
  "trace (alertHandling i s) = trace s @
     (if fst (buttonPressed (poll2 i) (button s))
      then [DigitalWrite BUZZER_PIN LOW, DigitalWrite LED_PIN (vipMode s),
            Println AckButton, Delay 200]
      else case card i of
        Some u \<Rightarrow> (if knownCard u
                   then [DigitalWrite BUZZER_PIN LOW, DigitalWrite LED_PIN HIGH, Println AckCard]
                   else []) @ [PICC_HaltA, Delay 200]
      | None \<Rightarrow> (if \<not> vipMode s
                  then (if buzzerInterval \<le> now i - lastBuzzerToggle s
                        then [DigitalWrite BUZZER_PIN (\<not> buzzerState s)] else [])
                  else [DigitalWrite BUZZER_PIN LOW]) @ [DigitalWrite LED_PIN HIGH, Delay 20])"
  by (simp add: alertHandling_def prims Let_def case_prod_beta split: option.splits)

lemma trace_cardScan:
  "trace (cardScan i u s) = trace s @
     [Println (CardUID (take (uid_size u) (uidByte u))), DigitalWrite LED_PIN HIGH,
      PICC_HaltA, Delay 100]"
  by (simp add: cardScan_def prims Let_def)

lemma trace_motionDetection:
  "trace (motionDetection i s) = trace s @
     (if motionCooldown < now i - lastMotionTime s
      then trigPulse @
        (if motionSeen s i
         then (if \<not> vipMode s
               then [DigitalWrite BUZZER_PIN HIGH, DigitalWrite LED_PIN HIGH,
                     Println (MotionDetected (pulseToCM (echo i)))]
               else [Println MotionVip, DigitalWrite LED_PIN HIGH])
         else [])
      else []) @ [Delay 40]"
  by (simp add: motionDetection_def motionSeen_def readDistanceCM_def trigPulse_def prims
        Let_def case_prod_beta)

lemma loop_unfold:
  "loop s i = (if alertActive s then alertHandling i (vipSteps i s)
     else case card i of Some u \<Rightarrow> cardScan i u (vipSteps i s)
          | None \<Rightarrow> motionDetection i (vipSteps i s))"
  by (simp add: loop_def Let_def vipSteps_frame)

lemma motionSeen_vipSteps: "motionSeen (vipSteps i s) i = motionSeen s i"
  by (simp add: motionSeen_def vipSteps_frame)

lemma alertHandling_state:
  "alertActive (alertHandling i s) =
     (alertActive s \<and> \<not> fst (buttonPressed (poll2 i) (button s))
       \<and> (case card i of Some u \<Rightarrow> \<not> knownCard u | None \<Rightarrow> True))"
  "vipMode (alertHandling i s) = vipMode s"
  by (simp_all add: alertHandling_def prims Let_def case_prod_beta split: option.splits)

lemma alertHandling_buzzer:
  "buzzer (alertHandling i s) =
     (if fst (buttonPressed (poll2 i) (button s)) then LOW
      else case card i of Some u \<Rightarrow> (if knownCard u then LOW else buzzer s)
           | None \<Rightarrow> (if vipMode s then LOW
                       else if buzzerInterval \<le> now i - lastBuzzerToggle s
                            then \<not> buzzerState s else buzzer s))"
  by (simp add: alertHandling_def prims Let_def case_prod_beta split: option.splits)

lemma cardScan_state:
  "buzzer (cardScan i u s) = buzzer s" "alertActive (cardScan i u s) = alertActive s"
  "vipMode (cardScan i u s) = vipMode s"
  by (simp_all add: cardScan_def prims Let_def)

lemma motionDetection_state:
  "alertActive (motionDetection i s) = (alertActive s \<or> motionSeen s i \<and> \<not> vipMode s)"
  "buzzer (motionDetection i s) = (buzzer s \<or> motionSeen s i \<and> \<not> vipMode s)"
  "vipMode (motionDetection i s) = vipMode s"
  by (auto simp add: motionDetection_def motionSeen_def readDistanceCM_def prims Let_def case_prod_beta)

lemma loop_inv: "buzzer s \<longrightarrow> alertActive s \<Longrightarrow> buzzer (loop s i) \<longrightarrow> alertActive (loop s i)"
  by (auto simp add: loop_unfold alertHandling_state alertHandling_buzzer cardScan_state
       motionDetection_state vipSteps_frame split: option.splits)

lemma run_inv:
  "buzzer s \<longrightarrow> alertActive s \<Longrightarrow> buzzer (run s ins) \<longrightarrow> alertActive (run s ins)"
  unfolding run_def
  by (induction ins arbitrary: s) (simp_all add: loop_inv)

lemma boot_buzzer: "\<not> buzzer boot"
  by (simp add: boot_def setup_sketch_def globals0_def prims)

lemma trace_rest: "\<exists>fs. trace (loop s i) = trace (vipSteps i s) @ fs"
  by (simp add: loop_unfold trace_alertHandling trace_cardScan trace_motionDetection
        split: option.splits)

lemma tickEvents_split:
  "tickEvents s i = emitted s (vipSteps i s) @ emitted (vipSteps i s) (loop s i)"
proof -
  obtain es where es: "trace (vipSteps i s) = trace s @ es"
    using trace_vipSteps[of i s] by blast
  obtain fs where fs: "trace (loop s i) = trace (vipSteps i s) @ fs"
    using trace_rest[of s i] by blast
  show ?thesis
    by (simp add: tickEvents_def emitted_def es fs)
qed

lemma emitted_vipSteps:
  "set (emitted s (vipSteps i s)) \<subseteq>
     {Println VipManual, Println VipAllCards, Println VipEnded, DigitalWrite LED_PIN LOW}"
  using trace_vipSteps[of i s] by (auto simp add: emitted_def)

lemma emitted_rest:
  "emitted (vipSteps i s) (loop s i) =
     (if alertActive s then
        (if pressed2 s i
         then [DigitalWrite BUZZER_PIN LOW, DigitalWrite LED_PIN (vipMode (vipSteps i s)),
               Println AckButton, Delay 200]
         else case card i of
           Some u \<Rightarrow> (if knownCard u
                      then [DigitalWrite BUZZER_PIN LOW, DigitalWrite LED_PIN HIGH, Println AckCard]
                      else []) @ [PICC_HaltA, Delay 200]
         | None \<Rightarrow> (if \<not> vipMode (vipSteps i s)
                     then (if buzzerInterval \<le> now i - lastBuzzerToggle s
                           then [DigitalWrite BUZZER_PIN (\<not> buzzerState s)] else [])
                     else [DigitalWrite BUZZER_PIN LOW]) @ [DigitalWrite LED_PIN HIGH, Delay 20])
      else case card i of
        Some u \<Rightarrow> [Println (CardUID (take (uid_size u) (uidByte u))), DigitalWrite LED_PIN HIGH,
                   PICC_HaltA, Delay 100]
      | None \<Rightarrow>
         (if motionCooldown < now i - lastMotionTime s
          then trigPulse @
            (if motionSeen s i
             then (if \<not> vipMode (vipSteps i s)
                   then [DigitalWrite BUZZER_PIN HIGH, DigitalWrite LED_PIN HIGH,
                         Println (MotionDetected (pulseToCM (echo i)))]
                   else [Println MotionVip, DigitalWrite LED_PIN HIGH])
             else [])
          else []) @ [Delay 40])"
  by (simp add: emitted_def loop_unfold trace_alertHandling trace_cardScan trace_motionDetection
        vipSteps_frame motionSeen_vipSteps pressed2_def split: option.splits)

lemma loop_alertActive:
  "alertActive (loop s i) =
     (if alertActive s
      then \<not> pressed2 s i \<and> (case card i of Some u \<Rightarrow> \<not> knownCard u | None \<Rightarrow> True)
      else card i = None \<and> motionSeen s i \<and> \<not> vipMode (vipSteps i s))"
  by (simp add: loop_unfold alertHandling_state cardScan_state motionDetection_state
        vipSteps_frame motionSeen_vipSteps pressed2_def split: option.splits)

lemma loop_vipMode: "vipMode (loop s i) = vipMode (vipSteps i s)"
  by (simp add: loop_unfold alertHandling_state cardScan_state motionDetection_state
        split: option.splits)

lemma loop_buzzer:
  "buzzer (loop s i) =
     (if alertActive s
      then (if pressed2 s i then LOW
            else case card i of Some u \<Rightarrow> (if knownCard u then LOW else buzzer s)
                 | None \<Rightarrow> (if vipMode (vipSteps i s) then LOW
                       else if buzzerInterval \<le> now i - lastBuzzerToggle s
                            then \<not> buzzerState s else buzzer s))
      else (case card i of Some u \<Rightarrow> buzzer s
            | None \<Rightarrow> buzzer s \<or> motionSeen s i \<and> \<not> vipMode (vipSteps i s)))"
  by (simp add: loop_unfold alertHandling_buzzer cardScan_state motionDetection_state
        vipSteps_frame motionSeen_vipSteps pressed2_def split: option.splits)

lemma buzzer_high_written:
  "DigitalWrite BUZZER_PIN HIGH \<in> set (tickEvents s i) \<Longrightarrow>
   alertActive (loop s i) \<and> \<not> vipMode (loop s i)"
  using emitted_vipSteps[of s i]
  by (auto simp add: tickEvents_split emitted_rest loop_alertActive loop_vipMode trigPulse_def
        split: if_splits option.splits)

lemma alert_cleared:
  "alertActive s \<Longrightarrow> \<not> alertActive (loop s i) \<Longrightarrow>
   \<not> buzzer (loop s i) \<and> DigitalWrite BUZZER_PIN LOW \<in> set (tickEvents s i)"
  by (auto simp add: tickEvents_split emitted_rest loop_alertActive loop_buzzer
        split: if_splits option.splits)

subsection \<open>Every path through \<open>loop\<close>, as one update of the state\<close>

lemma alertHandling_paths:
  "alertHandling i s =
     (let b = snd (buttonPressed (poll2 i) (button s)) in
      if fst (buttonPressed (poll2 i) (button s))
      then s\<lparr>button := b, alertActive := False, buzzer := LOW, led := vipMode s,
             trace := trace s @ [DigitalWrite BUZZER_PIN LOW, DigitalWrite LED_PIN (vipMode s),
                                 Println AckButton, Delay 200]\<rparr>
      else case card i of
        Some u \<Rightarrow>
          if knownCard u
          then s\<lparr>button := b, alertActive := False, buzzer := LOW, led := HIGH,
                 trace := trace s @ [DigitalWrite BUZZER_PIN LOW, DigitalWrite LED_PIN HIGH,
                                     Println AckCard, PICC_HaltA, Delay 200]\<rparr>
          else s\<lparr>button := b, trace := trace s @ [PICC_HaltA, Delay 200]\<rparr>
      | None \<Rightarrow>
          if vipMode s
          then s\<lparr>button := b, buzzer := LOW, led := HIGH,
                 trace := trace s @ [DigitalWrite BUZZER_PIN LOW, DigitalWrite LED_PIN HIGH,
                                     Delay 20]\<rparr>
          else if buzzerInterval \<le> now i - lastBuzzerToggle s
          then s\<lparr>button := b, buzzerState := \<not> buzzerState s, buzzer := \<not> buzzerState s,
                 lastBuzzerToggle := now i, led := HIGH,
                 trace := trace s @ [DigitalWrite BUZZER_PIN (\<not> buzzerState s),
                                     DigitalWrite LED_PIN HIGH, Delay 20]\<rparr>
          else s\<lparr>button := b, led := HIGH,
                 trace := trace s @ [DigitalWrite LED_PIN HIGH, Delay 20]\<rparr>)"
  by (simp add: alertHandling_def prims Let_def case_prod_beta split: option.splits)

lemma cardScan_paths:
  "cardScan i u s =
     s\<lparr>card1Scanned := card1Scanned s \<or> compareUID (uidByte u) uid1 4,
       card2Scanned := card2Scanned s \<or> compareUID (uidByte u) uid2 4,
       card3Scanned := card3Scanned s \<or> compareUID (uidByte u) uid3 4,
       led := HIGH, lastMotionTime := now i,
       trace := trace s @ [Println (CardUID (take (uid_size u) (uidByte u))),
                           DigitalWrite LED_PIN HIGH, PICC_HaltA, Delay 100]\<rparr>"
  by (simp add: cardScan_def prims Let_def)

lemma motionDetection_paths:
  "motionDetection i s =
     (if motionCooldown < now i - lastMotionTime s
      then if motionSeen s i
           then if \<not> vipMode s
                then s\<lparr>alertActive := True, buzzerState := True, lastBuzzerToggle := now i,
                       buzzer := HIGH, led := HIGH, trig := LOW, lastMotionTime := now i,
                       trace := trace s @ trigPulse @
                         [DigitalWrite BUZZER_PIN HIGH, DigitalWrite LED_PIN HIGH,
                          Println (MotionDetected (pulseToCM (echo i))), Delay 40]\<rparr>
                else s\<lparr>led := HIGH, trig := LOW, lastMotionTime := now i,
                       trace := trace s @ trigPulse @
                         [Println MotionVip, DigitalWrite LED_PIN HIGH, Delay 40]\<rparr>
           else s\<lparr>trig := LOW, trace := trace s @ trigPulse @ [Delay 40]\<rparr>
      else s\<lparr>trace := trace s @ [Delay 40]\<rparr>)"
  by (simp add: motionDetection_def motionSeen_def readDistanceCM_def trigPulse_def prims
        Let_def case_prod_beta)

subsection \<open>Single precision rounding and the distance conversion\<close>

lemma rne_bounds: "\<lfloor>y\<rfloor> \<le> rne y" "rne y \<le> \<lceil>y\<rceil>"
proof -
  show "\<lfloor>y\<rfloor> \<le> rne y" by (simp add: rne_def Let_def)
  have "y \<noteq> of_int \<lfloor>y\<rfloor> \<Longrightarrow> \<lceil>y\<rceil> = \<lfloor>y\<rfloor> + 1"
    by (metis ceiling_altdef)
  moreover have "y = of_int \<lfloor>y\<rfloor> \<Longrightarrow> rne y = \<lfloor>y\<rfloor>"
    by (simp add: rne_def Let_def)
  ultimately show "rne y \<le> \<lceil>y\<rceil>"
    by (cases "y = of_int \<lfloor>y\<rfloor>") (auto simp add: rne_def Let_def)
qed

lemma rne_le_int: "y \<le> of_int n \<Longrightarrow> rne y \<le> n"
  using rne_bounds(2)[of y] by (meson ceiling_le order_trans)

lemma rne_ge_int: "of_int n \<le> y \<Longrightarrow> n \<le> rne y"
  using rne_bounds(1)[of y] by (meson le_floor_iff order_trans)

lemma fexp_lower:
  assumes "x \<noteq> 0"
  shows "2 powi (fexp p x + int p - 1) \<le> \<bar>x\<bar>"
proof -
  obtain a b where ab: "quotient_of \<bar>x\<bar> = (a, b)" by (cases "quotient_of \<bar>x\<bar>")
  have b: "0 < b" using ab by (rule quotient_of_denom_pos)
  have x: "\<bar>x\<bar> = of_int a / of_int b" using ab by (rule quotient_of_div)
  have a: "0 < a"
  proof -
    have "0 < \<bar>x\<bar>" using assms by simp
    then have "0 < (of_int a :: rat) / of_int b" using x by simp
    then show ?thesis using b by (simp add: zero_less_divide_iff)
  qed
  define k where "k = bitlen a - bitlen b"
  have fe: "fexp p x + int p - 1 = (if 2 powi k \<le> \<bar>x\<bar> then k else k - 1)"
    by (simp add: fexp_def ab k_def Let_def)
  show ?thesis
  proof (cases "2 powi k \<le> \<bar>x\<bar>")
    case True
    then show ?thesis using fe by simp
  next
    case False
    have la: "2 ^ nat (bitlen a - 1) \<le> a" using bitlen_bounds[OF a] by simp
    have lb: "b < 2 ^ nat (bitlen b)" using bitlen_bounds[OF b] by simp
    have la1: "1 \<le> bitlen a" using a by (simp add: bitlen_alt_def)
    have lb0: "0 \<le> bitlen b" by (rule bitlen_nonneg)
    have A: "(2::rat) powi (bitlen a - 1) \<le> of_int a"
    proof -
      have "(of_int (2 ^ nat (bitlen a - 1)) :: rat) \<le> of_int a"
        using la by (simp only: of_int_le_iff)
      then show ?thesis using la1 by (simp add: power_int_def)
    qed
    have B: "(of_int b :: rat) \<le> 2 powi (bitlen b)"
    proof -
      have "(of_int b :: rat) < of_int (2 ^ nat (bitlen b))"
        using lb by (simp only: of_int_less_iff)
      then show ?thesis using lb0 by (simp add: power_int_def)
    qed
    have "(2::rat) powi (k - 1) = 2 powi ((bitlen a - 1) - bitlen b)"
      by (simp add: k_def algebra_simps)
    also have "\<dots> = 2 powi (bitlen a - 1) / 2 powi (bitlen b)"
      by (rule power_int_diff) simp
    also have "\<dots> \<le> of_int a / 2 powi (bitlen b)"
      using A by (simp add: divide_right_mono)
    also have "\<dots> \<le> of_int a / of_int b"
      using B a b by (simp add: frac_le)
    finally show ?thesis using fe False x by simp
  qed
qed

lemma fexp_upper:
  assumes "x \<noteq> 0"
  shows "\<bar>x\<bar> < 2 powi (fexp p x + int p)"
proof -
  obtain a b where ab: "quotient_of \<bar>x\<bar> = (a, b)" by (cases "quotient_of \<bar>x\<bar>")
  have b: "0 < b" using ab by (rule quotient_of_denom_pos)
  have x: "\<bar>x\<bar> = of_int a / of_int b" using ab by (rule quotient_of_div)
  have a: "0 < a"
  proof -
    have "0 < \<bar>x\<bar>" using assms by simp
    then have "0 < (of_int a :: rat) / of_int b" using x by simp
    then show ?thesis using b by (simp add: zero_less_divide_iff)
  qed
  define k where "k = bitlen a - bitlen b"
  have fe: "fexp p x + int p = (if 2 powi k \<le> \<bar>x\<bar> then k + 1 else k)"
    by (simp add: fexp_def ab k_def Let_def)
  show ?thesis
  proof (cases "2 powi k \<le> \<bar>x\<bar>")
    case False
    then show ?thesis using fe by simp
  next
    case True
    have la: "a < 2 ^ nat (bitlen a)" using bitlen_bounds[OF a] by simp
    have lb: "2 ^ nat (bitlen b - 1) \<le> b" using bitlen_bounds[OF b] by simp
    have la0: "0 \<le> bitlen a" by (rule bitlen_nonneg)
    have lb1: "1 \<le> bitlen b" using b by (simp add: bitlen_alt_def)
    have A: "(of_int a :: rat) < 2 powi (bitlen a)"
    proof -
      have "(of_int a :: rat) < of_int (2 ^ nat (bitlen a))"
        using la by (simp only: of_int_less_iff)
      then show ?thesis using la0 by (simp add: power_int_def)
    qed
    have B: "(2::rat) powi (bitlen b - 1) \<le> of_int b"
    proof -
      have "(of_int (2 ^ nat (bitlen b - 1)) :: rat) \<le> of_int b"
        using lb by (simp only: of_int_le_iff)
      then show ?thesis using lb1 by (simp add: power_int_def)
    qed
    have "of_int a / (of_int b :: rat) < 2 powi (bitlen a) / of_int b"
      using A b by (simp add: divide_strict_right_mono)
    also have "\<dots> \<le> 2 powi (bitlen a) / 2 powi (bitlen b - 1)"
      using B by (simp add: frac_le)
    also have "\<dots> = 2 powi (bitlen a - (bitlen b - 1))"
      by (rule power_int_diff[symmetric]) simp
    also have "\<dots> = 2 powi (k + 1)"
      by (simp add: k_def algebra_simps)
    finally show ?thesis using fe True x by simp
  qed
qed

lemma fexp_le:
  assumes "x \<noteq> 0" "\<bar>x\<bar> < 2 powi k"
  shows "fexp p x \<le> k - int p"
proof (rule ccontr)
  assume "\<not> fexp p x \<le> k - int p"
  then have "k \<le> fexp p x + int p - 1" by simp
  then have "(2::rat) powi k \<le> 2 powi (fexp p x + int p - 1)"
    by (rule power_int_increasing) simp
  also have "\<dots> \<le> \<bar>x\<bar>" using assms(1) by (rule fexp_lower)
  finally show False using assms(2) by simp
qed

lemma fexp_ge:
  assumes "x \<noteq> 0" "2 powi k \<le> \<bar>x\<bar>"
  shows "k - int p < fexp p x"
proof (rule ccontr)
  assume "\<not> k - int p < fexp p x"
  then have "fexp p x + int p \<le> k" by simp
  then have "(2::rat) powi (fexp p x + int p) \<le> 2 powi k"
    by (rule power_int_increasing) simp
  moreover have "\<bar>x\<bar> < 2 powi (fexp p x + int p)" using assms(1) by (rule fexp_upper)
  ultimately show False using assms(2) by simp
qed

lemma fexp_unique:
  assumes "2 powi (e + int p - 1) \<le> \<bar>x\<bar>" "\<bar>x\<bar> < 2 powi (e + int p)"
  shows "fexp p x = e"
proof -
  have "(0::rat) < 2 powi (e + int p - 1)" by simp
  then have "0 < \<bar>x\<bar>" using assms(1) by linarith
  then have x: "x \<noteq> 0" by simp
  have "fexp p x \<le> e" using fexp_le[OF x assms(2), of p] by simp
  moreover have "e - 1 < fexp p x" using fexp_ge[OF x assms(1), of p] by simp
  ultimately show ?thesis by simp
qed

lemma grid_point:
  assumes "e \<le> - int j"
  shows "(of_int m :: rat) / 2 ^ j = of_int (m * 2 ^ nat (- int j - e)) * 2 powi e"
proof -
  have "(2::rat) powi (- int j) = 2 powi ((- int j - e) + e)" by simp
  also have "\<dots> = 2 powi (- int j - e) * 2 powi e" by (rule power_int_add) simp
  also have "(2::rat) powi (- int j - e) = 2 ^ nat (- int j - e)"
    using assms by (simp add: power_int_def)
  finally have "(2::rat) powi (- int j) = 2 ^ nat (- int j - e) * 2 powi e" .
  moreover have "(of_int m :: rat) / 2 ^ j = of_int m * 2 powi (- int j)"
    by (simp add: power_int_minus field_simps)
  ultimately show ?thesis by simp
qed

lemma fl_grid_le:
  assumes "\<bar>x\<bar> < 2 powi (int p - int j)" "x \<le> of_int m / 2 ^ j"
  shows "fl p x \<le> of_int m / 2 ^ j"
proof (cases "x = 0")
  case True
  then show ?thesis using assms(2) by (simp add: fl_def)
next
  case False
  define e where "e = fexp p x"
  have e: "e \<le> - int j" using fexp_le[OF False assms(1), of p] by (simp add: e_def)
  define N where "N = m * 2 ^ nat (- int j - e)"
  have g: "(of_int m :: rat) / 2 ^ j = of_int N * 2 powi e"
    unfolding N_def by (rule grid_point[OF e])
  have pos: "(0::rat) < 2 powi e" by simp
  have "x / 2 powi e \<le> of_int N"
    using assms(2) pos unfolding g by (simp add: pos_divide_le_eq)
  then have "rne (x / 2 powi e) \<le> N" by (rule rne_le_int)
  then have "(of_int (rne (x / 2 powi e)) :: rat) \<le> of_int N" by (simp only: of_int_le_iff)
  then have "(of_int (rne (x / 2 powi e)) :: rat) * 2 powi e \<le> of_int N * 2 powi e"
    using pos by (simp only: mult_le_cancel_right_pos)
  then show ?thesis using False by (simp add: fl_def g e_def)
qed

lemma fl_grid_ge:
  assumes "\<bar>x\<bar> < 2 powi (int p - int j)" "of_int m / 2 ^ j \<le> x"
  shows "of_int m / 2 ^ j \<le> fl p x"
proof (cases "x = 0")
  case True
  then show ?thesis using assms(2) by (simp add: fl_def)
next
  case False
  define e where "e = fexp p x"
  have e: "e \<le> - int j" using fexp_le[OF False assms(1), of p] by (simp add: e_def)
  define N where "N = m * 2 ^ nat (- int j - e)"
  have g: "(of_int m :: rat) / 2 ^ j = of_int N * 2 powi e"
    unfolding N_def by (rule grid_point[OF e])
  have pos: "(0::rat) < 2 powi e" by simp
  have "of_int N \<le> x / 2 powi e"
    using assms(2) pos unfolding g by (simp add: pos_le_divide_eq)
  then have "N \<le> rne (x / 2 powi e)" by (rule rne_ge_int)
  then have "(of_int N :: rat) \<le> of_int (rne (x / 2 powi e))" by (simp only: of_int_le_iff)
  then have "(of_int N :: rat) * 2 powi e \<le> of_int (rne (x / 2 powi e)) * 2 powi e"
    using pos by (simp only: mult_le_cancel_right_pos)
  then show ?thesis using False by (simp add: fl_def g e_def)
qed

lemma fl_int:
  assumes "\<bar>of_int m :: rat\<bar> < 2 ^ p"
  shows "fl p (of_int m) = of_int m"
proof -
  have b: "\<bar>of_int m :: rat\<bar> < 2 powi (int p - int 0)" using assms by simp
  have "fl p (of_int m) \<le> of_int m / 2 ^ 0"
    by (rule fl_grid_le[OF b]) simp
  moreover have "of_int m / 2 ^ 0 \<le> fl p (of_int m)"
    by (rule fl_grid_ge[OF b]) simp
  ultimately show ?thesis by simp
qed

lemma fl_34: "fl 24 (34 / 1000) = 9126806 / 2 ^ 28"
proof -
  have e: "fexp 24 (34 / 1000) = - 28"
    by (rule fexp_unique) (simp_all add: power_int_minus)
  have f: "\<lfloor>9126805504 / 1000 :: rat\<rfloor> = 9126805"
    by (rule floor_unique) simp_all
  have "rne (9126805504 / 1000) = 9126806"
    unfolding rne_def Let_def f by simp
  moreover have "(34 / 1000 :: rat) / 2 powi (- 28) = 9126805504 / 1000"
    by (simp add: power_int_minus)
  ultimately show ?thesis
    unfolding fl_def e by (simp add: power_int_minus)
qed

lemma fl_nat: "n < 2 ^ 24 \<Longrightarrow> fl 24 (of_nat n) = of_nat n"
proof -
  assume "n < 2 ^ 24"
  then have "(of_nat n :: rat) < of_nat (2 ^ 24)" by (simp only: of_nat_less_iff)
  then have "\<bar>of_int (int n) :: rat\<bar> < 2 ^ 24" by simp
  then have "fl 24 (of_int (int n)) = of_int (int n)" by (rule fl_int)
  then show ?thesis by simp
qed

lemma fl_2: "fl 24 2 = 2"
  using fl_int[of 2 24] by simp

lemma scaled_pulse:
  fixes n :: nat
  assumes n: "n \<le> 50000"
  defines "q \<equiv> n * 17 div 1000"
  defines "z \<equiv> fl 24 (fl 24 (of_nat n * (9126806 / 2 ^ 28)) / 2)"
  shows "of_nat q \<le> z" "z < of_nat q + 1"
proof -
  define r where "r = n * 17 mod 1000"
  define x :: rat where "x = of_nat n * (9126806 / 2 ^ 28)"
  define y where "y = fl 24 x"
  have "n * 17 = 1000 * q + r" by (simp add: q_def r_def)
  then have "(of_nat (n * 17) :: rat) = of_nat (1000 * q + r)" by (simp only:)
  then have nq: "(of_nat n :: rat) * 17 = 1000 * of_nat q + of_nat r" by simp
  have "r < 1000" by (simp add: r_def)
  then have "r \<le> 999" by simp
  then have "(of_nat r :: rat) \<le> of_nat 999" by (simp only: of_nat_le_iff)
  then have r: "(of_nat r :: rat) \<le> 999" by simp
  have r0: "(0::rat) \<le> of_nat r" by simp
  have "(of_nat n :: rat) \<le> of_nat 50000" using n by (simp only: of_nat_le_iff)
  then have n': "(of_nat n :: rat) \<le> 50000" by simp
  have n0: "(0::rat) \<le> of_nat n" by simp
  have q0: "(0::rat) \<le> of_nat q" by simp
  have xlo: "of_int (2 * int q) / 2 ^ 0 \<le> x"
    using nq r0 n0 by (simp add: x_def)
  have xhi: "x \<le> of_int (2048 * (int q + 1) - 1) / 2 ^ 10"
    using nq r n' n0 by (simp add: x_def)
  have x0: "0 \<le> x" using n0 by (simp add: x_def)
  have xb: "x < 2 ^ 14" using n' n0 by (simp add: x_def)
  have xa: "\<bar>x\<bar> < 2 powi (int 24 - int 0)" "\<bar>x\<bar> < 2 powi (int 24 - int 10)"
    using x0 xb by simp_all
  have ylo: "of_int (2 * int q) / 2 ^ 0 \<le> y"
    unfolding y_def by (rule fl_grid_ge[OF xa(1) xlo])
  have yhi: "y \<le> of_int (2048 * (int q + 1) - 1) / 2 ^ 10"
    unfolding y_def by (rule fl_grid_le[OF xa(2) xhi])
  have "(of_nat q :: rat) * 1000 \<le> of_nat n * 17" using nq r0 by simp
  then have q': "(of_nat q :: rat) \<le> 850" using n' by simp
  have y0: "0 \<le> y / 2" using ylo q0 by simp
  have yb: "y / 2 < 2 ^ 13" using yhi q' by simp
  have ya: "\<bar>y / 2\<bar> < 2 powi (int 24 - int 0)" "\<bar>y / 2\<bar> < 2 powi (int 24 - int 11)"
    using y0 yb by simp_all
  have zlo: "of_int (int q) / 2 ^ 0 \<le> y / 2" using ylo by simp
  have zhi: "y / 2 \<le> of_int (2048 * (int q + 1) - 1) / 2 ^ 11" using yhi by simp
  have "of_int (int q) / 2 ^ 0 \<le> fl 24 (y / 2)"
    by (rule fl_grid_ge[OF ya(1) zlo])
  then show "of_nat q \<le> z" by (simp add: z_def y_def x_def)
  have "fl 24 (y / 2) \<le> of_int (2048 * (int q + 1) - 1) / 2 ^ 11"
    by (rule fl_grid_le[OF ya(2) zhi])
  then show "z < of_nat q + 1" by (simp add: z_def y_def x_def)
qed

lemma pulseToCM_exact:
  assumes "dur \<le> 50000"
  shows "pulseToCM dur = int (unat dur * 17 div 1000)"
proof -
  have n: "unat dur \<le> 50000" using assms by (simp add: word_le_nat_alt)
  then have n24: "unat dur < 2 ^ 24" by simp
  have "pulseToCM dur = \<lfloor>fl 24 (fl 24 (of_nat (unat dur) * (9126806 / 2 ^ 28)) / 2)\<rfloor>"
    unfolding pulseToCM_def fl_nat[OF n24] fl_34 fl_2 ..
  also have "\<dots> = int (unat dur * 17 div 1000)"
    using scaled_pulse[OF n] by (intro floor_unique) simp_all
  finally show ?thesis .
qed

lemma pulseToCM_code [code]:
  "pulseToCM dur =
     (if dur \<le> 50000 then int (unat dur * 17 div 1000)
      else \<lfloor>fl 24 (fl 24 (fl 24 (of_nat (unat dur)) * fl 24 (34 / 1000)) / fl 24 2)\<rfloor>)"
  by (simp add: pulseToCM_exact) (simp add: pulseToCM_def)

subsection \<open>Evaluation at concrete inputs\<close>

lemma boot_eq:
  "boot = \<lparr>alertActive = False, lastMotionTime = 0,
     card1Scanned = False, card2Scanned = False, card3Scanned = False,
     vipMode = False, vipStartTime = 0, buzzerState = False, lastBuzzerToggle = 0,
     button = \<lparr>lastBounce = 0, lastState = HIGH\<rparr>,
     led = LOW, buzzer = LOW, trig = LOW,
     trace = [DigitalWrite LED_PIN LOW, DigitalWrite BUZZER_PIN LOW, Println Ready]\<rparr>"
  by (simp add: boot_def setup_sketch_def globals0_def prims)

lemmas eval_button = pressed1_def pressed2_def button1_def button2_def buttonPressed_def Let_def
lemmas eval_consts = motionCooldown_def MOTION_THRESHOLD_CM_def vipDuration_def buzzerInterval_def
  idleTick_def pressTick_def motionTick_def cardTick_def cardOf_def uid1_def uid2_def uid3_def
  knownCard_def trigPulse_def matches_def

lemma fst_readDistanceCM:
  "fst (readDistanceCM dur s) = (if dur = 0 then - 1 else pulseToCM dur)"
  by (simp add: readDistanceCM_def Let_def)

lemma motionSeen_iff:
  "motionSeen s i = (motionCooldown < now i - lastMotionTime s
     \<and> 0 < fst (readDistanceCM (echo i) s') \<and> fst (readDistanceCM (echo i) s') \<le> MOTION_THRESHOLD_CM)"
  by (auto simp add: motionSeen_def fst_readDistanceCM)

lemma alerted_reached: "loop boot (motionTick 2000) = alerted"
proof -
  have v: "vipSteps (motionTick 2000) boot = boot"
    by (simp add: boot_eq steps eval_button eval_consts)
  have m: "motionSeen boot (motionTick 2000)"
    by (simp add: boot_eq motionSeen_def pulseToCM_exact eval_consts)
  show ?thesis
    unfolding loop_unfold v motionDetection_paths
    using m by (simp add: boot_eq alerted_def pulseToCM_exact eval_consts)
qed

lemma loop_motion_alert:
  assumes "\<not> alertActive s" "card i = None" "motionSeen s i" "\<not> vipMode (vipSteps i s)"
  shows "loop s i = (vipSteps i s)\<lparr>alertActive := True, buzzerState := True,
           lastBuzzerToggle := now i, buzzer := HIGH, led := HIGH, trig := LOW,
           lastMotionTime := now i,
           trace := trace (vipSteps i s) @ trigPulse @
             [DigitalWrite BUZZER_PIN HIGH, DigitalWrite LED_PIN HIGH,
              Println (MotionDetected (pulseToCM (echo i))), Delay 40]\<rparr>"
  using assms
  by (simp add: loop_unfold motionDetection_paths motionSeen_vipSteps vipSteps_frame)
     (simp add: motionSeen_def)

lemma vipSteps_cong:
  assumes "now j = now i" and "poll1 j = poll1 i"
  shows "vipSteps j s = vipSteps i s"
  unfolding steps assms by (rule refl)

lemma run_Cons: "run s (i # ins) = run (loop s i) ins"
  by (simp add: run_def)

lemma run_Nil: "run s [] = s"
  by (simp add: run_def)

lemma alerted_run: "run boot [motionTick 2000] = alerted"
  by (simp add: run_Cons run_Nil alerted_reached)

lemma vipSteps_vipMode:
  "vipMode (vipSteps i s) =
     (if vipMode s then \<not> vipDuration < now i - vipStartTime s
      else pressed1 s i \<or> card1Scanned s \<and> card2Scanned s \<and> card3Scanned s)"
  by (rule vipSteps_cases[of s i]) (simp_all add: vipSteps_eqs)

lemma vipSteps_vipStartTime:
  "vipStartTime (vipSteps i s) =
     (if \<not> vipMode s \<and> (pressed1 s i \<or> card1Scanned s \<and> card2Scanned s \<and> card3Scanned s)
      then now i else vipStartTime s)"
  by (rule vipSteps_cases[of s i]) (auto simp add: vipSteps_eqs)

lemma vipSteps_flags:
  "card1Scanned (vipSteps i s) =
     (card1Scanned s \<and> \<not> (vipMode s \<and> vipDuration < now i - vipStartTime s))"
  "card2Scanned (vipSteps i s) =
     (card2Scanned s \<and> \<not> (vipMode s \<and> vipDuration < now i - vipStartTime s))"
  "card3Scanned (vipSteps i s) =
     (card3Scanned s \<and> \<not> (vipMode s \<and> vipDuration < now i - vipStartTime s))"
  by (rule vipSteps_cases[of s i]; simp add: vipSteps_eqs)+

lemma loop_flags:
  "card1Scanned (loop s i) = (card1Scanned (vipSteps i s) \<or> \<not> alertActive s \<and> matches (card i) uid1)"
  "card2Scanned (loop s i) = (card2Scanned (vipSteps i s) \<or> \<not> alertActive s \<and> matches (card i) uid2)"
  "card3Scanned (loop s i) = (card3Scanned (vipSteps i s) \<or> \<not> alertActive s \<and> matches (card i) uid3)"
  by (simp_all add: loop_unfold alertHandling_paths cardScan_paths motionDetection_paths
        matches_def Let_def split: option.splits)

lemma loop_vipStartTime: "vipStartTime (loop s i) = vipStartTime (vipSteps i s)"
  by (simp add: loop_unfold alertHandling_paths cardScan_paths motionDetection_paths
        Let_def split: option.splits)

lemma loop_led:
  "led (loop s i) =
     (if alertActive s
      then (if pressed2 s i then vipMode (vipSteps i s)
            else case card i of Some u \<Rightarrow> (if knownCard u then HIGH else led (vipSteps i s))
                 | None \<Rightarrow> HIGH)
      else (case card i of Some u \<Rightarrow> HIGH
            | None \<Rightarrow> led (vipSteps i s) \<or> motionSeen s i))"
  by (simp add: loop_unfold alertHandling_paths cardScan_paths motionDetection_paths
        vipSteps_frame motionSeen_vipSteps pressed2_def Let_def split: option.splits)
     (auto simp add: motionSeen_def)

lemma loop_card_scan:
  assumes "\<not> alertActive s" and "card i = Some u"
  shows "loop s i = (vipSteps i s)\<lparr>
      card1Scanned := card1Scanned (vipSteps i s) \<or> compareUID (uidByte u) uid1 4,
      card2Scanned := card2Scanned (vipSteps i s) \<or> compareUID (uidByte u) uid2 4,
      card3Scanned := card3Scanned (vipSteps i s) \<or> compareUID (uidByte u) uid3 4,
      led := HIGH, lastMotionTime := now i,
      trace := trace (vipSteps i s) @
        [Println (CardUID (take (uid_size u) (uidByte u))), DigitalWrite LED_PIN HIGH,
         PICC_HaltA, Delay 100]\<rparr>"
  using assms by (simp add: loop_unfold cardScan_paths)

lemma loop_motion_vip:
  assumes "\<not> alertActive s" "card i = None" "motionSeen s i" "vipMode (vipSteps i s)"
  shows "loop s i = (vipSteps i s)\<lparr>led := HIGH, trig := LOW, lastMotionTime := now i,
           trace := trace (vipSteps i s) @ trigPulse @
             [Println MotionVip, DigitalWrite LED_PIN HIGH, Delay 40]\<rparr>"
  using assms
  by (simp add: loop_unfold motionDetection_paths motionSeen_vipSteps vipSteps_frame)
     (simp add: motionSeen_def)

lemma emitted_vipSteps_expired:
  "vipMode s \<Longrightarrow> vipDuration < now i - vipStartTime s \<Longrightarrow>
   emitted s (vipSteps i s) =
     (if alertActive s then [Println VipEnded] else [Println VipEnded, DigitalWrite LED_PIN LOW])"
  by (simp add: vipSteps_expired emitted_def)

lemma emitted_vipSteps_unexpired:
  "vipMode s \<Longrightarrow> \<not> vipDuration < now i - vipStartTime s \<Longrightarrow> emitted s (vipSteps i s) = []"
  by (simp add: vipSteps_unexpired emitted_def)

lemma vipSteps_led:
  "led (vipSteps i s) =
     (led s \<and> \<not> (vipMode s \<and> vipDuration < now i - vipStartTime s \<and> \<not> alertActive s))"
  by (rule vipSteps_cases[of s i]) (auto simp add: vipSteps_eqs)

lemma released_not_pressed: "level r \<Longrightarrow> \<not> fst (buttonPressed r b)"
  by (simp add: buttonPressed_def Let_def)

lemma loop_flags_noVip:
  assumes "\<not> vipMode s"
  shows "card1Scanned (loop s i) = (card1Scanned s \<or> \<not> alertActive s \<and> matches (card i) uid1)"
    and "card2Scanned (loop s i) = (card2Scanned s \<or> \<not> alertActive s \<and> matches (card i) uid2)"
    and "card3Scanned (loop s i) = (card3Scanned s \<or> \<not> alertActive s \<and> matches (card i) uid3)"
  using assms by (simp_all add: loop_flags vipSteps_flags)

lemma loop_auto_vip:
  assumes "\<not> vipMode s" and "card1Scanned s" and "card2Scanned s" and "card3Scanned s"
  shows "vipMode (loop s i) \<and> vipStartTime (loop s i) = now i"
  using assms by (simp add: loop_vipMode loop_vipStartTime vipSteps_vipMode vipSteps_vipStartTime)

lemma neverVip_run: "neverVip s ins \<Longrightarrow> \<not> vipMode (run s ins)"
  by (induction ins arbitrary: s) (simp_all add: run_Nil run_Cons)

lemma flag1_accumulates:
  "neverVip s ins \<Longrightarrow> card1Scanned s \<or> scannedIdle s ins uid1 \<Longrightarrow> card1Scanned (run s ins)"
proof (induction ins arbitrary: s)
  case Nil
  then show ?case by (simp add: run_Nil)
next
  case (Cons i ins)
  from Cons.prems(1) have nv: "\<not> vipMode s" and rest: "neverVip (loop s i) ins" by simp_all
  from Cons.prems(2) have "card1Scanned (loop s i) \<or> scannedIdle (loop s i) ins uid1"
    by (auto simp add: loop_flags_noVip(1)[OF nv])
  with Cons.IH[OF rest] show ?case by (simp add: run_Cons)
qed

lemma flag2_accumulates:
  "neverVip s ins \<Longrightarrow> card2Scanned s \<or> scannedIdle s ins uid2 \<Longrightarrow> card2Scanned (run s ins)"
proof (induction ins arbitrary: s)
  case Nil
  then show ?case by (simp add: run_Nil)
next
  case (Cons i ins)
  from Cons.prems(1) have nv: "\<not> vipMode s" and rest: "neverVip (loop s i) ins" by simp_all
  from Cons.prems(2) have "card2Scanned (loop s i) \<or> scannedIdle (loop s i) ins uid2"
    by (auto simp add: loop_flags_noVip(2)[OF nv])
  with Cons.IH[OF rest] show ?case by (simp add: run_Cons)
qed

lemma flag3_accumulates:
  "neverVip s ins \<Longrightarrow> card3Scanned s \<or> scannedIdle s ins uid3 \<Longrightarrow> card3Scanned (run s ins)"
proof (induction ins arbitrary: s)
  case Nil
  then show ?case by (simp add: run_Nil)
next
  case (Cons i ins)
  from Cons.prems(1) have nv: "\<not> vipMode s" and rest: "neverVip (loop s i) ins" by simp_all
  from Cons.prems(2) have "card3Scanned (loop s i) \<or> scannedIdle (loop s i) ins uid3"
    by (auto simp add: loop_flags_noVip(3)[OF nv])
  with Cons.IH[OF rest] show ?case by (simp add: run_Cons)
qed

text \<open>The three stored UIDs differ in their first byte, so no card matches two of them.\<close>


lemma compareUID_first: "compareUID bs (y # b) (Suc n) \<Longrightarrow> \<exists>t. bs = y # t"
  by (cases bs) (simp_all split: if_splits)

lemma uid_first:
  "compareUID bs uid1 4 \<Longrightarrow> \<exists>t. bs = 0x07 # t"
  "compareUID bs uid2 4 \<Longrightarrow> \<exists>t. bs = 0xFA # t"
  "compareUID bs uid3 4 \<Longrightarrow> \<exists>t. bs = 0xDC # t"
  unfolding uid1_def uid2_def uid3_def numeral_eq_Suc pred_numeral_simps
  by (rule compareUID_first, assumption)+

lemma uid_distinct:
  "compareUID bs uid1 4 \<Longrightarrow> \<not> compareUID bs uid2 4"
  "compareUID bs uid1 4 \<Longrightarrow> \<not> compareUID bs uid3 4"
  "compareUID bs uid2 4 \<Longrightarrow> \<not> compareUID bs uid3 4"
  using uid_first[of bs] by auto


lemma oneCard_loop:
  assumes "oneCard u s" and "level (poll1 i)" and "card i = None \<or> card i = Some u"
  shows "oneCard u (loop s i)"
proof -
  have nv: "\<not> vipMode s" using assms(1) by (simp add: oneCard_def)
  have np: "\<not> pressed1 s i"
    using assms(2) by (simp add: pressed1_def released_not_pressed)
  have na: "\<not> (card1Scanned s \<and> card2Scanned s \<and> card3Scanned s)"
    using assms(1) uid_distinct(1)[of "uidByte u"] by (auto simp add: oneCard_def)
  have v: "\<not> vipMode (loop s i)"
    using nv np na by (simp add: loop_vipMode vipSteps_vipMode)
  have m: "matches (card i) bs \<Longrightarrow> compareUID (uidByte u) bs 4" for bs
    using assms(3) by (auto simp add: matches_def)
  show ?thesis
    using assms(1) v m by (auto simp add: oneCard_def loop_flags_noVip[OF nv])
qed

lemma oneCard_run:
  "oneCard u s \<Longrightarrow> \<forall>i \<in> set ins. level (poll1 i) \<and> (card i = None \<or> card i = Some u) \<Longrightarrow>
   oneCard u (run s ins)"
  by (induction ins arbitrary: s) (simp_all add: run_Nil run_Cons oneCard_loop)

lemma oneCard_boot: "oneCard u boot"
  by (simp add: oneCard_def boot_eq)

lemma buttonPressed_fst:
  "fst (buttonPressed r b) =
     (\<not> level r \<and> 40 < tCheck r - (if level r \<noteq> lastState b then tChange r else lastBounce b))"
  by (simp add: buttonPressed_def Let_def)

lemma buttonPressed_snd:
  "snd (buttonPressed r b) =
     \<lparr>lastBounce = (if level r \<noteq> lastState b then tChange r else lastBounce b),
      lastState = level r\<rparr>"
  by (simp add: buttonPressed_def Let_def)

lemma held_keeps_firing:
  "\<not> lastState b \<Longrightarrow> \<forall>r \<in> set rs. \<not> level r \<and> 40 < tCheck r - lastBounce b \<Longrightarrow>
   pollAll b rs = replicate (length rs) True"
proof (induction rs arbitrary: b)
  case Nil
  then show ?case by simp
next
  case (Cons r rs)
  have f: "fst (buttonPressed r b)"
    using Cons.prems by (simp add: buttonPressed_fst)
  have s: "snd (buttonPressed r b) = b"
    using Cons.prems by (simp add: buttonPressed_snd)
  show ?case
    using Cons.IH[of b] Cons.prems f s by simp
qed

lemma vipExpire_expired:
  "vipMode s \<Longrightarrow> vipDuration < now i - vipStartTime s \<Longrightarrow>
   vipExpire i s =
     (if alertActive s
      then s\<lparr>vipMode := False, card1Scanned := False, card2Scanned := False,
             card3Scanned := False, trace := trace s @ [Println VipEnded]\<rparr>
      else s\<lparr>vipMode := False, card1Scanned := False, card2Scanned := False,
             card3Scanned := False, led := LOW,
             trace := trace s @ [Println VipEnded, DigitalWrite LED_PIN LOW]\<rparr>)"
  by (simp add: vipExpire_def prims Let_def)

lemma vipExpire_vipMode:
  "vipMode (vipExpire i s) = (vipMode s \<and> \<not> vipDuration < now i - vipStartTime s)"
  by (auto simp add: vipExpire_def prims Let_def)

lemma loop_lastMotionTime_card:
  "\<not> alertActive s \<Longrightarrow> matches (card i) bs \<Longrightarrow> lastMotionTime (loop s i) = now i"
  by (cases "card i") (simp_all add: matches_def loop_card_scan)

text \<open>
  When a call of \<open>loop\<close> ends with all three scan flags set and VIP mode off, that call
  has scanned a card with no alert active, and so has set \<open>lastMotionTime\<close> to its clock.
\<close>

lemma all_flags_fresh:
  assumes "\<not> vipMode (loop s i)"
    and "card1Scanned (loop s i)" and "card2Scanned (loop s i)" and "card3Scanned (loop s i)"
  shows "lastMotionTime (loop s i) = now i"
proof -
  have nv: "\<not> vipMode (vipSteps i s)" using assms(1) by (simp add: loop_vipMode)
  have "\<not> (card1Scanned (vipSteps i s) \<and> card2Scanned (vipSteps i s)
      \<and> card3Scanned (vipSteps i s))"
    using nv by (auto simp add: vipSteps_flags vipSteps_vipMode split: if_splits)
  then have "\<not> alertActive s \<and> (matches (card i) uid1 \<or> matches (card i) uid2
      \<or> matches (card i) uid3)"
    using assms(2,3,4) by (auto simp add: loop_flags)
  then show ?thesis using loop_lastMotionTime_card[of s i] by blast
qed

section \<open>The claims\<close>

text \<open>
  C3, amended. For every echo pulse of \<open>P\<close> microseconds with \<open>0 < P \<le> 50000\<close>
  the measurement returns \<open>P * 0.034 / 2\<close> with the fraction dropped, a whole number of
  centimetres that is 0 exactly for \<open>P \<le> 58\<close>; a timeout (pulse 0) returns \<open>-1\<close>, which
  no pulse above 0 returns.
\<close>

theorem readDistanceCM_truncates:
  "fst (readDistanceCM 0 s) = - 1 \<and>
   (0 < dur \<and> dur \<le> 50000 \<longrightarrow>
      fst (readDistanceCM dur s) = \<lfloor>of_nat (unat dur) * (34 / 1000) / 2 :: rat\<rfloor>
      \<and> 0 \<le> fst (readDistanceCM dur s)
      \<and> (fst (readDistanceCM dur s) = 0 \<longleftrightarrow> dur \<le> 58))"
proof -
  have zero: "fst (readDistanceCM 0 s) = - 1"
    by (simp add: readDistanceCM_def Let_def)
  have pos: "fst (readDistanceCM dur s) = \<lfloor>of_nat (unat dur) * (34 / 1000) / 2 :: rat\<rfloor>
      \<and> 0 \<le> fst (readDistanceCM dur s)
      \<and> (fst (readDistanceCM dur s) = 0 \<longleftrightarrow> dur \<le> 58)"
    if d: "0 < dur" "dur \<le> 50000"
  proof -
    have nz: "dur \<noteq> 0" using d(1) by auto
    have val: "fst (readDistanceCM dur s) = int (unat dur * 17 div 1000)"
      using nz by (simp add: readDistanceCM_def Let_def pulseToCM_exact[OF d(2)])
    have "(of_nat (unat dur) * (34 / 1000) / 2 :: rat)
        = of_int (int (unat dur * 17)) / of_int 1000"
      by simp
    then have fl: "\<lfloor>of_nat (unat dur) * (34 / 1000) / 2 :: rat\<rfloor> = int (unat dur * 17) div 1000"
      by (simp only: floor_divide_of_int_eq)
    have small: "(unat dur * 17 div 1000 = 0) = (dur \<le> 58)"
      by (simp add: word_le_nat_alt) arith
    have eq: "int (unat dur * 17) div 1000 = int (unat dur * 17 div 1000)"
      by (simp add: zdiv_int)
    show ?thesis
      unfolding val fl eq using small
      by (simp only: of_nat_0_le_iff of_nat_eq_0_iff simp_thms)
  qed
  show ?thesis using zero pos by blast
qed

theorem readDistanceCM_truncates_witness:
  "(0::ulong) < 883 \<and> (883::ulong) \<le> 50000 \<and> fst (readDistanceCM 883 boot) = 15
   \<and> fst (readDistanceCM 0 boot) = - 1"
proof -
  have h: "(0::ulong) < 883 \<and> (883::ulong) \<le> 50000" by simp
  have "fst (readDistanceCM 883 boot) = \<lfloor>of_nat (unat (883::ulong)) * (34 / 1000) / 2 :: rat\<rfloor>"
    using readDistanceCM_truncates[of boot 883] h by blast
  also have "\<dots> = 15"
    by (rule floor_unique) simp_all
  finally show ?thesis
    using h readDistanceCM_truncates[of boot 883] by blast
qed

text \<open>
  C3 as stated fails: a pulse of 10 microseconds (inside the timeout) makes the
  measurement return 0, which is neither \<open>10 * 0.034 / 2 = 0.17\<close> nor different from a
  zero distance.
\<close>

theorem readDistanceCM_zero_counterexample:
  "(0::ulong) < 10 \<and> (10::ulong) \<le> 50000 \<and> fst (readDistanceCM 10 boot) = 0
   \<and> of_int (fst (readDistanceCM 10 boot)) \<noteq> (10 * (34 / 1000) / 2 :: rat)"
  by (simp add: readDistanceCM_def Let_def pulseToCM_exact)

text \<open>
  C9. A call of \<open>loop\<close> is either the first one, in the state \<open>boot\<close> that \<open>setup\<close>
  leaves, or it follows another call; \<open>loop\<close> pauses at most 200 ms and waits at most
  50 ms for the echo, so a call starts within the motion cooldown of 1500 ms after the
  call before it has read its clock. For every such call that starts with no alert
  active, \<open>vipMode\<close> false, no button press reported, no card in the field,
  \<open>now - lastMotionTime > 1500\<close> and a distance reading above 0 and at most 20 cm: the
  call ends with the alert active, the buzzer output HIGH, the blink state set to on
  with its last toggle at \<open>now\<close>, the LED output HIGH and \<open>lastMotionTime = now\<close>.
\<close>

theorem motion_triggers_alert:
  assumes "s = boot \<or> s = loop s0 i0 \<and> now i - now i0 \<le> motionCooldown"
    and "\<not> alertActive s" and "\<not> vipMode s" and "\<not> pressed1 s i" and "card i = None"
    and "motionCooldown < now i - lastMotionTime s"
    and "0 < fst (readDistanceCM (echo i) s)"
    and "fst (readDistanceCM (echo i) s) \<le> MOTION_THRESHOLD_CM"
  shows "alertActive (loop s i) \<and> buzzer (loop s i) \<and> buzzerState (loop s i)
    \<and> lastBuzzerToggle (loop s i) = now i \<and> led (loop s i)
    \<and> lastMotionTime (loop s i) = now i"
proof -
  have nf: "\<not> (card1Scanned s \<and> card2Scanned s \<and> card3Scanned s)"
  proof
    assume f: "card1Scanned s \<and> card2Scanned s \<and> card3Scanned s"
    then have "s \<noteq> boot" by (auto simp add: boot_eq)
    then have c: "s = loop s0 i0" "now i - now i0 \<le> motionCooldown"
      using assms(1) by blast+
    have "lastMotionTime s = now i0"
      using all_flags_fresh[of s0 i0] assms(3) f unfolding c(1) by blast
    then show False using assms(6) c(2) by simp
  qed
  have v: "vipSteps i s = s\<lparr>button := button1 s i\<rparr>"
    using assms(3,4) nf by (rule vipSteps_none)
  have m: "motionSeen s i"
    using assms(6,7,8) by (simp add: motionSeen_iff[of s i s])
  have "\<not> vipMode (vipSteps i s)" using assms(3) by (simp add: v)
  from loop_motion_alert[OF assms(2,5) m this] show ?thesis by simp
qed

theorem motion_triggers_alert_witness:
  "now (motionTick 2000) - now (idleTick 1000) \<le> motionCooldown
   \<and> \<not> alertActive (loop boot (idleTick 1000)) \<and> \<not> vipMode (loop boot (idleTick 1000))
   \<and> \<not> pressed1 (loop boot (idleTick 1000)) (motionTick 2000)
   \<and> card (motionTick 2000) = None
   \<and> motionCooldown < now (motionTick 2000) - lastMotionTime (loop boot (idleTick 1000))
   \<and> fst (readDistanceCM (echo (motionTick 2000)) (loop boot (idleTick 1000))) = 15
   \<and> alertActive (loop (loop boot (idleTick 1000)) (motionTick 2000))
   \<and> buzzer (loop (loop boot (idleTick 1000)) (motionTick 2000))
   \<and> buzzerState (loop (loop boot (idleTick 1000)) (motionTick 2000))
   \<and> lastBuzzerToggle (loop (loop boot (idleTick 1000)) (motionTick 2000)) = 2000
   \<and> led (loop (loop boot (idleTick 1000)) (motionTick 2000))
   \<and> lastMotionTime (loop (loop boot (idleTick 1000)) (motionTick 2000)) = 2000
   \<and> \<not> alertActive boot \<and> \<not> vipMode boot \<and> \<not> pressed1 boot (motionTick 2000)
   \<and> motionCooldown < now (motionTick 2000) - lastMotionTime boot
   \<and> fst (readDistanceCM (echo (motionTick 2000)) boot) = 15
   \<and> alertActive (loop boot (motionTick 2000)) \<and> buzzer (loop boot (motionTick 2000))
   \<and> led (loop boot (motionTick 2000)) \<and> lastMotionTime (loop boot (motionTick 2000)) = 2000"
proof -
  define S where "S = loop boot (idleTick 1000)"
  define m where "m = motionTick 2000"
  have g: "now m - now (idleTick 1000) \<le> motionCooldown" unfolding m_def by code_simp
  have h: "\<not> alertActive S" "\<not> vipMode S" "\<not> pressed1 S m" "card m = None"
    "motionCooldown < now m - lastMotionTime S"
    unfolding S_def m_def by code_simp+
  have hb: "\<not> alertActive boot" "\<not> vipMode boot" "\<not> pressed1 boot m"
    "motionCooldown < now m - lastMotionTime boot"
    unfolding m_def by code_simp+
  have d: "fst (readDistanceCM (echo m) s) = 15" for s
    by (simp add: m_def fst_readDistanceCM pulseToCM_exact eval_consts)
  have r: "0 < fst (readDistanceCM (echo m) s)"
    "fst (readDistanceCM (echo m) s) \<le> MOTION_THRESHOLD_CM" for s
    by (simp_all add: d MOTION_THRESHOLD_CM_def)
  have n: "now m = 2000" unfolding m_def by code_simp
  have a: "S = boot \<or> S = loop boot (idleTick 1000) \<and> now m - now (idleTick 1000) \<le> motionCooldown"
    using g by (simp add: S_def)
  have b: "boot = boot \<or> boot = loop boot (idleTick 1000)
      \<and> now m - now (idleTick 1000) \<le> motionCooldown"
    by simp
  have c1: "alertActive (loop S m)" "buzzer (loop S m)" "buzzerState (loop S m)"
    "lastBuzzerToggle (loop S m) = 2000" "led (loop S m)" "lastMotionTime (loop S m) = 2000"
    using motion_triggers_alert[OF a h r] by (simp_all add: n)
  have c2: "alertActive (loop boot m)" "buzzer (loop boot m)" "led (loop boot m)"
    "lastMotionTime (loop boot m) = 2000"
    using motion_triggers_alert[OF b hb(1,2,3) h(4) hb(4) r] by (simp_all add: n)
  show ?thesis
    using g h hb d[of S] d[of boot] c1 c2 unfolding S_def m_def by blast
qed

text \<open>
  The bound on the time between two calls is needed in this model, where the clock
  values are free inputs: were a call to start 1600 ms after a call that scanned the
  third card, it would first switch VIP mode on, and the motion would raise no alert.
\<close>

lemma call_spacing_needed:
  "\<not> alertActive (run boot [cardTick 100 uid1, cardTick 300 uid2, cardTick 500 uid3])
   \<and> \<not> vipMode (run boot [cardTick 100 uid1, cardTick 300 uid2, cardTick 500 uid3])
   \<and> \<not> pressed1 (run boot [cardTick 100 uid1, cardTick 300 uid2, cardTick 500 uid3])
          (motionTick 2100)
   \<and> card (motionTick 2100) = None
   \<and> motionCooldown < now (motionTick 2100)
        - lastMotionTime (run boot [cardTick 100 uid1, cardTick 300 uid2, cardTick 500 uid3])
   \<and> fst (readDistanceCM (echo (motionTick 2100))
        (run boot [cardTick 100 uid1, cardTick 300 uid2, cardTick 500 uid3])) = 15
   \<and> \<not> alertActive (loop (run boot [cardTick 100 uid1, cardTick 300 uid2, cardTick 500 uid3])
        (motionTick 2100))
   \<and> \<not> buzzer (loop (run boot [cardTick 100 uid1, cardTick 300 uid2, cardTick 500 uid3])
        (motionTick 2100))"
proof -
  define S where "S = run boot [cardTick 100 uid1, cardTick 300 uid2, cardTick 500 uid3]"
  have a: "\<not> alertActive S" unfolding S_def by code_simp
  have v: "\<not> vipMode S" unfolding S_def by code_simp
  have p: "\<not> pressed1 S (motionTick 2100)" unfolding S_def by code_simp
  have f: "card1Scanned S \<and> card2Scanned S \<and> card3Scanned S" unfolding S_def by code_simp
  have t: "lastMotionTime S = 500" unfolding S_def by code_simp
  have b: "\<not> buzzer S" unfolding S_def by code_simp
  have c: "card (motionTick 2100) = None" by (simp add: eval_consts)
  have d: "fst (readDistanceCM (echo (motionTick 2100)) S) = 15"
    by (simp add: fst_readDistanceCM pulseToCM_exact eval_consts)
  have w: "motionCooldown < now (motionTick 2100) - lastMotionTime S"
    by (simp add: t eval_consts)
  have "vipMode (vipSteps (motionTick 2100) S)"
    by (simp add: vipSteps_auto[OF v p f])
  then have "\<not> alertActive (loop S (motionTick 2100))" "\<not> buzzer (loop S (motionTick 2100))"
    using a b by (simp_all add: loop_alertActive loop_buzzer c)
  then show ?thesis
    using a v p c d w unfolding S_def by simp
qed

text \<open>
  C8. For every call of \<open>loop\<close> that starts with an alert active, in which the
  acknowledging button poll reports a press and a card of the allow list is in the
  field: the button path runs (alert cleared, buzzer LOW, LED at the level of \<open>vipMode\<close>),
  nothing of the card path happens (no card acknowledgement is printed, the reader is not
  halted, the result does not depend on the card or on the echo), and the call ends
  there: apart from the VIP steps at its head, the state changes in nothing else.
\<close>

theorem button_ack_precedes_card:
  assumes "alertActive s" and "pressed2 s i" and "card i = Some u" and "knownCard u"
  shows "loop s i = (vipSteps i s)\<lparr>button := button2 s i, alertActive := False,
            buzzer := LOW, led := vipMode (vipSteps i s),
            trace := trace (vipSteps i s) @
              [DigitalWrite BUZZER_PIN LOW, DigitalWrite LED_PIN (vipMode (vipSteps i s)),
               Println AckButton, Delay 200]\<rparr>
    \<and> \<not> alertActive (loop s i) \<and> \<not> buzzer (loop s i) \<and> led (loop s i) = vipMode (loop s i)
    \<and> Println AckCard \<notin> set (tickEvents s i) \<and> PICC_HaltA \<notin> set (tickEvents s i)
    \<and> (\<forall>c e. loop s (i\<lparr>card := c, echo := e\<rparr>) = loop s i)"
proof -
  have eq: "loop s j = (vipSteps j s)\<lparr>button := button2 s j, alertActive := False,
            buzzer := LOW, led := vipMode (vipSteps j s),
            trace := trace (vipSteps j s) @
              [DigitalWrite BUZZER_PIN LOW, DigitalWrite LED_PIN (vipMode (vipSteps j s)),
               Println AckButton, Delay 200]\<rparr>"
    if "pressed2 s j" for j
    using assms(1) that
    by (simp add: loop_unfold alertHandling_paths vipSteps_frame pressed2_def button2_def Let_def)
  have ev: "set (tickEvents s i) \<subseteq>
      {Println VipManual, Println VipAllCards, Println VipEnded, DigitalWrite LED_PIN LOW,
       DigitalWrite BUZZER_PIN LOW, DigitalWrite LED_PIN (vipMode (vipSteps i s)),
       Println AckButton, Delay 200}"
    using emitted_vipSteps[of s i] assms(1,2)
    by (auto simp add: tickEvents_split emitted_rest)
  have indep: "loop s (i\<lparr>card := c, echo := e\<rparr>) = loop s i" for c e
  proof -
    have p: "pressed2 s (i\<lparr>card := c, echo := e\<rparr>)"
      using assms(2) by (simp add: pressed2_def button1_def)
    have v: "vipSteps (i\<lparr>card := c, echo := e\<rparr>) s = vipSteps i s"
      by (rule vipSteps_cong) simp_all
    show ?thesis
      unfolding eq[OF p] eq[OF assms(2)] v by (simp add: button2_def button1_def)
  qed
  show ?thesis
    using eq[OF assms(2)] ev indep by (auto simp add: loop_vipMode)
qed

theorem button_ack_precedes_card_witness:
  "alertActive (run alerted [pressTick 2100]) \<and> pressed2 (run alerted [pressTick 2100])
      ((pressTick 2150)\<lparr>card := Some (cardOf uid2)\<rparr>)
   \<and> knownCard (cardOf uid2)
   \<and> \<not> alertActive (loop (run alerted [pressTick 2100])
          ((pressTick 2150)\<lparr>card := Some (cardOf uid2)\<rparr>))
   \<and> \<not> buzzer (loop (run alerted [pressTick 2100])
          ((pressTick 2150)\<lparr>card := Some (cardOf uid2)\<rparr>))
   \<and> led (loop (run alerted [pressTick 2100]) ((pressTick 2150)\<lparr>card := Some (cardOf uid2)\<rparr>))
   \<and> Println AckCard \<notin> set (tickEvents (run alerted [pressTick 2100])
          ((pressTick 2150)\<lparr>card := Some (cardOf uid2)\<rparr>))"
proof -
  define S where "S = run alerted [pressTick 2100]"
  define k where "k = (pressTick 2150)\<lparr>card := Some (cardOf uid2)\<rparr>"
  have h: "alertActive S" "pressed2 S k" "card k = Some (cardOf uid2)" "knownCard (cardOf uid2)"
    unfolding S_def k_def by code_simp+
  have v: "vipMode (loop S k)" unfolding S_def k_def by code_simp
  from button_ack_precedes_card[OF h] h v show ?thesis
    unfolding S_def k_def by simp
qed

text \<open>
  C7, amended. For every call of \<open>loop\<close> that starts with an alert active and
  \<open>vipMode\<close> false, in which the acknowledging button poll reports no press and the card
  \<open>uid2\<close> is in the field: the alert is cleared, the buzzer output is set LOW, the LED
  output is set HIGH, and every scan flag, the one of \<open>uid2\<close> included, keeps the value it
  had before the call (the acknowledging scan does not set it).
\<close>

theorem card_ack_keeps_flags:
  assumes "alertActive s" and "\<not> vipMode s" and "\<not> pressed2 s i"
    and "card i = Some u" and "compareUID (uidByte u) uid2 4"
  shows "\<not> alertActive (loop s i) \<and> \<not> buzzer (loop s i) \<and> led (loop s i)
    \<and> DigitalWrite BUZZER_PIN LOW \<in> set (tickEvents s i)
    \<and> DigitalWrite LED_PIN HIGH \<in> set (tickEvents s i)
    \<and> card1Scanned (loop s i) = card1Scanned s
    \<and> card2Scanned (loop s i) = card2Scanned s
    \<and> card3Scanned (loop s i) = card3Scanned s"
proof -
  have k: "knownCard u" using assms(5) by (simp add: knownCard_def)
  show ?thesis
    using assms(1,2,3,4) k
    by (simp add: loop_alertActive loop_buzzer loop_led loop_flags vipSteps_flags
          tickEvents_split emitted_rest)
qed

theorem card_ack_keeps_flags_witness:
  "alertActive alerted \<and> \<not> vipMode alerted \<and> \<not> pressed2 alerted (cardTick 2040 uid2)
   \<and> card (cardTick 2040 uid2) = Some (cardOf uid2)
   \<and> compareUID (uidByte (cardOf uid2)) uid2 4
   \<and> \<not> alertActive (loop alerted (cardTick 2040 uid2))
   \<and> \<not> buzzer (loop alerted (cardTick 2040 uid2))
   \<and> led (loop alerted (cardTick 2040 uid2))
   \<and> card2Scanned (loop alerted (cardTick 2040 uid2)) = card2Scanned alerted"
proof -
  have h: "alertActive alerted" "\<not> vipMode alerted" "\<not> pressed2 alerted (cardTick 2040 uid2)"
    "card (cardTick 2040 uid2) = Some (cardOf uid2)"
    "compareUID (uidByte (cardOf uid2)) uid2 4"
    by code_simp+
  from card_ack_keeps_flags[OF h] h show ?thesis by simp
qed

text \<open>
  C7 as stated fails: after the alert raised by the first motion, a scan of \<open>uid2\<close>
  clears the alert and leaves the flag of \<open>uid2\<close> false.
\<close>

theorem card_ack_flag_counterexample:
  "alertActive (run boot [motionTick 2000]) \<and> \<not> vipMode (run boot [motionTick 2000])
   \<and> \<not> pressed1 (run boot [motionTick 2000]) (cardTick 2040 uid2)
   \<and> \<not> pressed2 (run boot [motionTick 2000]) (cardTick 2040 uid2)
   \<and> matches (card (cardTick 2040 uid2)) uid2
   \<and> \<not> alertActive (loop (run boot [motionTick 2000]) (cardTick 2040 uid2))
   \<and> \<not> card2Scanned (loop (run boot [motionTick 2000]) (cardTick 2040 uid2))"
  unfolding alerted_run by code_simp

text \<open>
  C4, amended. For every call of \<open>loop\<close> that starts with no alert active and finds a card
  whose UID matches none of the three stored ones: the UID is printed, no scan flag is
  set, and the alert, the buzzer, the blink state and everything else stay as the VIP
  steps at the head of the call left them, except that the LED output is set HIGH and
  \<open>lastMotionTime\<close> is set to \<open>now\<close>, as for any card.
\<close>

theorem unknown_card_idle:
  assumes "\<not> alertActive s" and "card i = Some u" and "\<not> knownCard u"
  shows "loop s i = (vipSteps i s)\<lparr>led := HIGH, lastMotionTime := now i,
            trace := trace (vipSteps i s) @
              [Println (CardUID (take (uid_size u) (uidByte u))), DigitalWrite LED_PIN HIGH,
               PICC_HaltA, Delay 100]\<rparr>
    \<and> (card1Scanned (loop s i) \<longrightarrow> card1Scanned s)
    \<and> (card2Scanned (loop s i) \<longrightarrow> card2Scanned s)
    \<and> (card3Scanned (loop s i) \<longrightarrow> card3Scanned s)
    \<and> \<not> alertActive (loop s i) \<and> buzzer (loop s i) = buzzer s"
proof -
  have n: "\<not> compareUID (uidByte u) uid1 4" "\<not> compareUID (uidByte u) uid2 4"
    "\<not> compareUID (uidByte u) uid3 4"
    using assms(3) by (simp_all add: knownCard_def)
  have eq: "loop s i = (vipSteps i s)\<lparr>led := HIGH, lastMotionTime := now i,
            trace := trace (vipSteps i s) @
              [Println (CardUID (take (uid_size u) (uidByte u))), DigitalWrite LED_PIN HIGH,
               PICC_HaltA, Delay 100]\<rparr>"
    unfolding loop_card_scan[OF assms(1,2)] using n by simp
  show ?thesis
    unfolding eq using assms(1) by (simp add: vipSteps_flags vipSteps_frame)
qed

theorem unknown_card_idle_witness:
  "\<not> alertActive (run boot [cardTick 100 uid1])
   \<and> card (cardTick 300 [1, 2, 3, 4]) = Some (cardOf [1, 2, 3, 4])
   \<and> \<not> knownCard (cardOf [1, 2, 3, 4])
   \<and> card1Scanned (loop (run boot [cardTick 100 uid1]) (cardTick 300 [1, 2, 3, 4]))
   \<and> card1Scanned (run boot [cardTick 100 uid1])
   \<and> led (loop (run boot [cardTick 100 uid1]) (cardTick 300 [1, 2, 3, 4]))
   \<and> lastMotionTime (loop (run boot [cardTick 100 uid1]) (cardTick 300 [1, 2, 3, 4])) = 300
   \<and> \<not> alertActive (loop (run boot [cardTick 100 uid1]) (cardTick 300 [1, 2, 3, 4]))"
proof -
  define S where "S = run boot [cardTick 100 uid1]"
  define k where "k = cardTick 300 [1, 2, 3, 4]"
  have h: "\<not> alertActive S" "card k = Some (cardOf [1, 2, 3, 4])"
    "\<not> knownCard (cardOf [1, 2, 3, 4])"
    unfolding S_def k_def by code_simp+
  have f: "card1Scanned (loop S k)" unfolding S_def k_def by code_simp
  have n: "now k = 300" unfolding k_def by code_simp
  note T = unknown_card_idle[OF h]
  have c1: "card1Scanned S" using T f by blast
  have c2: "\<not> alertActive (loop S k)" using T by blast
  have "led (loop S k) \<and> lastMotionTime (loop S k) = now k"
    by (subst (1 2) conjunct1[OF T]) simp
  then show ?thesis
    using h f c1 c2 n unfolding S_def k_def by simp
qed

text \<open>
  C4 as stated fails: a card with the unknown UID 01 02 03 04, scanned in the first call
  of \<open>loop\<close>, turns the LED on and moves \<open>lastMotionTime\<close>.
\<close>

theorem unknown_card_counterexample:
  "\<not> alertActive boot \<and> card (cardTick 500 [1, 2, 3, 4]) = Some (cardOf [1, 2, 3, 4])
   \<and> \<not> knownCard (cardOf [1, 2, 3, 4])
   \<and> \<not> led boot \<and> led (loop boot (cardTick 500 [1, 2, 3, 4]))
   \<and> lastMotionTime boot = 0 \<and> lastMotionTime (loop boot (cardTick 500 [1, 2, 3, 4])) = 500"
  by code_simp

text \<open>
  C6. On every call of \<open>loop\<close> that starts with \<open>vipMode\<close> true and
  \<open>now - vipStartTime > 30000\<close>, the expiry block sets \<open>vipMode\<close> to false, clears the
  three scan flags and, if no alert is active, writes the LED LOW; \<open>vipMode\<close> is still
  false when the call ends. Every call that takes \<open>vipMode\<close> from true to false is such
  a call, so the scan flags are all clear at every such transition. A flag that is true
  when the call ends was set after the transition, by a card read in that same call
  with no alert active.
\<close>

theorem vip_expiration:
  "(vipMode s \<and> vipDuration < now i - vipStartTime s \<longrightarrow>
      \<not> vipMode (vipExpire i s) \<and> \<not> card1Scanned (vipExpire i s)
      \<and> \<not> card2Scanned (vipExpire i s) \<and> \<not> card3Scanned (vipExpire i s)
      \<and> (\<not> alertActive s \<longrightarrow> \<not> led (vipExpire i s))
      \<and> \<not> vipMode (vipSteps i s) \<and> \<not> card1Scanned (vipSteps i s)
      \<and> \<not> card2Scanned (vipSteps i s) \<and> \<not> card3Scanned (vipSteps i s)
      \<and> (\<not> alertActive s \<longrightarrow>
            \<not> led (vipSteps i s) \<and> DigitalWrite LED_PIN LOW \<in> set (tickEvents s i))
      \<and> \<not> vipMode (loop s i)
      \<and> card1Scanned (loop s i) = (\<not> alertActive s \<and> matches (card i) uid1)
      \<and> card2Scanned (loop s i) = (\<not> alertActive s \<and> matches (card i) uid2)
      \<and> card3Scanned (loop s i) = (\<not> alertActive s \<and> matches (card i) uid3))
   \<and> (vipMode s \<and> \<not> vipMode (vipExpire i s) \<longrightarrow>
      \<not> card1Scanned (vipExpire i s) \<and> \<not> card2Scanned (vipExpire i s)
      \<and> \<not> card3Scanned (vipExpire i s))
   \<and> (vipMode s \<and> \<not> vipMode (loop s i) \<longrightarrow>
      vipDuration < now i - vipStartTime s
      \<and> \<not> card1Scanned (vipSteps i s) \<and> \<not> card2Scanned (vipSteps i s)
      \<and> \<not> card3Scanned (vipSteps i s))"
proof -
  have A: "\<not> vipMode (vipExpire i s) \<and> \<not> card1Scanned (vipExpire i s)
      \<and> \<not> card2Scanned (vipExpire i s) \<and> \<not> card3Scanned (vipExpire i s)
      \<and> (\<not> alertActive s \<longrightarrow> \<not> led (vipExpire i s))"
    if "vipMode s" "vipDuration < now i - vipStartTime s"
    by (simp add: vipExpire_expired[OF that])
  have B: "\<not> vipMode (vipSteps i s) \<and> \<not> card1Scanned (vipSteps i s)
      \<and> \<not> card2Scanned (vipSteps i s) \<and> \<not> card3Scanned (vipSteps i s)
      \<and> (\<not> alertActive s \<longrightarrow>
            \<not> led (vipSteps i s) \<and> DigitalWrite LED_PIN LOW \<in> set (tickEvents s i))
      \<and> \<not> vipMode (loop s i)
      \<and> card1Scanned (loop s i) = (\<not> alertActive s \<and> matches (card i) uid1)
      \<and> card2Scanned (loop s i) = (\<not> alertActive s \<and> matches (card i) uid2)
      \<and> card3Scanned (loop s i) = (\<not> alertActive s \<and> matches (card i) uid3)"
    if "vipMode s" "vipDuration < now i - vipStartTime s"
    using that
    by (simp add: loop_vipMode vipSteps_vipMode loop_flags vipSteps_flags vipSteps_led
          tickEvents_split emitted_vipSteps_expired)
  have C: "vipDuration < now i - vipStartTime s" if "vipMode s" "\<not> vipMode (vipExpire i s)"
    using that by (simp add: vipExpire_vipMode)
  have D: "vipDuration < now i - vipStartTime s" if "vipMode s" "\<not> vipMode (loop s i)"
    using that by (simp add: loop_vipMode vipSteps_vipMode)
  show ?thesis using A B C D by blast
qed

theorem vip_expiration_witness:
  "vipMode (run boot [cardTick 50 uid1, pressTick 100, pressTick 150])
   \<and> card1Scanned (run boot [cardTick 50 uid1, pressTick 100, pressTick 150])
   \<and> \<not> alertActive (run boot [cardTick 50 uid1, pressTick 100, pressTick 150])
   \<and> vipDuration < now (idleTick 30151)
        - vipStartTime (run boot [cardTick 50 uid1, pressTick 100, pressTick 150])
   \<and> \<not> vipMode (vipExpire (idleTick 30151)
        (run boot [cardTick 50 uid1, pressTick 100, pressTick 150]))
   \<and> \<not> card1Scanned (vipExpire (idleTick 30151)
        (run boot [cardTick 50 uid1, pressTick 100, pressTick 150]))
   \<and> \<not> led (vipExpire (idleTick 30151)
        (run boot [cardTick 50 uid1, pressTick 100, pressTick 150]))
   \<and> \<not> card1Scanned (vipSteps (idleTick 30151)
        (run boot [cardTick 50 uid1, pressTick 100, pressTick 150]))
   \<and> DigitalWrite LED_PIN LOW \<in> set (tickEvents
        (run boot [cardTick 50 uid1, pressTick 100, pressTick 150]) (idleTick 30151))
   \<and> \<not> vipMode (loop (run boot [cardTick 50 uid1, pressTick 100, pressTick 150])
        (idleTick 30151))
   \<and> \<not> card1Scanned (loop (run boot [cardTick 50 uid1, pressTick 100, pressTick 150])
        (idleTick 30151))"
proof -
  define S where "S = run boot [cardTick 50 uid1, pressTick 100, pressTick 150]"
  define k where "k = idleTick 30151"
  have h: "vipMode S" "card1Scanned S" "\<not> alertActive S"
    "vipDuration < now k - vipStartTime S"
    unfolding S_def k_def by code_simp+
  have m: "\<not> matches (card k) uid1" unfolding k_def by code_simp
  note T = vip_expiration[of S k]
  have c1: "\<not> vipMode (vipExpire k S) \<and> \<not> card1Scanned (vipExpire k S)
      \<and> \<not> led (vipExpire k S) \<and> \<not> card1Scanned (vipSteps k S)
      \<and> DigitalWrite LED_PIN LOW \<in> set (tickEvents S k) \<and> \<not> vipMode (loop S k)"
    using T h by blast
  have c2: "\<not> card1Scanned (loop S k)"
    using T h m by blast
  show ?thesis using h c1 c2 unfolding S_def k_def by blast
qed

text \<open>
  C2, amended. Whenever \<open>vipMode\<close> is true at the start of a call of \<open>loop\<close> and does not
  expire in it (\<open>now - vipStartTime \<le> 30000\<close>), the call leaves \<open>vipMode\<close> true, raises no
  alert, never writes the buzzer HIGH and leaves the buzzer LOW if it was LOW; a motion
  detection (no alert active, no card, cooldown over, reading above 0 and at most 20 cm)
  then only pulses the trigger, prints a line, sets the LED HIGH and sets
  \<open>lastMotionTime\<close> to \<open>now\<close>.
\<close>

theorem vip_suppresses_alert:
  assumes "vipMode s" and "\<not> vipDuration < now i - vipStartTime s"
  shows "vipMode (loop s i)
    \<and> (alertActive (loop s i) \<longrightarrow> alertActive s)
    \<and> DigitalWrite BUZZER_PIN HIGH \<notin> set (tickEvents s i)
    \<and> (buzzer (loop s i) \<longrightarrow> buzzer s)
    \<and> (\<not> alertActive s \<and> card i = None \<and> motionSeen s i \<longrightarrow>
         loop s i = s\<lparr>button := button1 s i, led := HIGH, trig := LOW, lastMotionTime := now i,
           trace := trace s @ trigPulse @
             [Println MotionVip, DigitalWrite LED_PIN HIGH, Delay 40]\<rparr>)"
proof -
  have v: "vipSteps i s = s\<lparr>button := button1 s i\<rparr>"
    using assms by (rule vipSteps_unexpired)
  have vm: "vipMode (vipSteps i s)" using assms(1) by (simp add: v)
  have 1: "vipMode (loop s i)" using vm by (simp add: loop_vipMode)
  have 2: "alertActive (loop s i) \<longrightarrow> alertActive s"
    using vm by (simp add: loop_alertActive)
  have 3: "DigitalWrite BUZZER_PIN HIGH \<notin> set (tickEvents s i)"
    using vm assms
    by (simp add: tickEvents_split emitted_vipSteps_unexpired emitted_rest trigPulse_def
          split: option.splits)
  have 4: "buzzer (loop s i) \<longrightarrow> buzzer s"
    using vm by (simp add: loop_buzzer split: option.splits)
  have 5: "loop s i = s\<lparr>button := button1 s i, led := HIGH, trig := LOW, lastMotionTime := now i,
           trace := trace s @ trigPulse @
             [Println MotionVip, DigitalWrite LED_PIN HIGH, Delay 40]\<rparr>"
    if "\<not> alertActive s \<and> card i = None \<and> motionSeen s i"
    using loop_motion_vip[of s i] that vm by (simp add: v)
  show ?thesis using 1 2 3 4 5 by blast
qed

theorem vip_suppresses_alert_witness:
  "vipMode (run alerted [pressTick 2100,
      (pressTick 2150)\<lparr>poll2 := \<lparr>level = HIGH, tChange = 2150, tCheck = 2150\<rparr>,
                        card := Some (cardOf [1, 2, 3, 4])\<rparr>])
   \<and> \<not> vipDuration < now (cardTick 2400 [1, 2, 3, 4]) - vipStartTime (run alerted [pressTick 2100,
      (pressTick 2150)\<lparr>poll2 := \<lparr>level = HIGH, tChange = 2150, tCheck = 2150\<rparr>,
                        card := Some (cardOf [1, 2, 3, 4])\<rparr>])
   \<and> alertActive (loop (run alerted [pressTick 2100,
      (pressTick 2150)\<lparr>poll2 := \<lparr>level = HIGH, tChange = 2150, tCheck = 2150\<rparr>,
                        card := Some (cardOf [1, 2, 3, 4])\<rparr>]) (cardTick 2400 [1, 2, 3, 4]))
   \<and> buzzer (loop (run alerted [pressTick 2100,
      (pressTick 2150)\<lparr>poll2 := \<lparr>level = HIGH, tChange = 2150, tCheck = 2150\<rparr>,
                        card := Some (cardOf [1, 2, 3, 4])\<rparr>]) (cardTick 2400 [1, 2, 3, 4]))
   \<and> alertActive (run alerted [pressTick 2100,
      (pressTick 2150)\<lparr>poll2 := \<lparr>level = HIGH, tChange = 2150, tCheck = 2150\<rparr>,
                        card := Some (cardOf [1, 2, 3, 4])\<rparr>])
   \<and> buzzer (run alerted [pressTick 2100,
      (pressTick 2150)\<lparr>poll2 := \<lparr>level = HIGH, tChange = 2150, tCheck = 2150\<rparr>,
                        card := Some (cardOf [1, 2, 3, 4])\<rparr>])
   \<and> vipMode (run boot [pressTick 100, pressTick 150])
   \<and> \<not> vipDuration < now (motionTick 2000) - vipStartTime (run boot [pressTick 100, pressTick 150])
   \<and> \<not> alertActive (run boot [pressTick 100, pressTick 150])
   \<and> card (motionTick 2000) = None
   \<and> motionSeen (run boot [pressTick 100, pressTick 150]) (motionTick 2000)
   \<and> \<not> alertActive (loop (run boot [pressTick 100, pressTick 150]) (motionTick 2000))
   \<and> led (loop (run boot [pressTick 100, pressTick 150]) (motionTick 2000))
   \<and> lastMotionTime (loop (run boot [pressTick 100, pressTick 150]) (motionTick 2000)) = 2000
   \<and> DigitalWrite BUZZER_PIN HIGH
        \<notin> set (tickEvents (run boot [pressTick 100, pressTick 150]) (motionTick 2000))"
proof -
  define X where "X = run alerted [pressTick 2100,
      (pressTick 2150)\<lparr>poll2 := \<lparr>level = HIGH, tChange = 2150, tCheck = 2150\<rparr>,
                        card := Some (cardOf [1, 2, 3, 4])\<rparr>]"
  define k where "k = cardTick 2400 [1, 2, 3, 4]"
  define V where "V = run boot [pressTick 100, pressTick 150]"
  define m where "m = motionTick 2000"
  have x: "vipMode X" "\<not> vipDuration < now k - vipStartTime X"
    "alertActive (loop X k)" "buzzer (loop X k)"
    unfolding X_def k_def by code_simp+
  have v: "vipMode V" "\<not> vipDuration < now m - vipStartTime V" "\<not> alertActive V"
    "card m = None" "lastMotionTime V = 0" "now m = 2000"
    unfolding V_def m_def by code_simp+
  have ms: "motionSeen V m"
    by (simp add: motionSeen_def v(5) m_def pulseToCM_exact eval_consts)
  note TX = vip_suppresses_alert[OF x(1,2)]
  note TV = vip_suppresses_alert[OF v(1,2)]
  have cx: "alertActive X" "buzzer X" using TX x(3,4) by blast+
  have eq: "loop V m = V\<lparr>button := button1 V m, led := HIGH, trig := LOW,
      lastMotionTime := now m,
      trace := trace V @ trigPulse @ [Println MotionVip, DigitalWrite LED_PIN HIGH, Delay 40]\<rparr>"
    using TV v(3,4) ms by blast
  have cv: "\<not> alertActive (loop V m)" "led (loop V m)" "lastMotionTime (loop V m) = 2000"
    unfolding eq using v(3,6) by simp_all
  have nb: "DigitalWrite BUZZER_PIN HIGH \<notin> set (tickEvents V m)" using TV by blast
  show ?thesis
    using x cx v(1,2,3,4) ms cv nb unfolding X_def k_def V_def m_def by blast
qed

text \<open>
  C2 as stated fails: \<open>vipMode\<close> is true at the start of a call of \<open>loop\<close> made more than
  30000 ms after VIP mode began; the call ends VIP mode, then detects the motion, raises
  the alert and writes the buzzer HIGH.
\<close>

theorem vip_expiring_counterexample:
  "vipMode (run boot [pressTick 100, pressTick 150])
   \<and> \<not> alertActive (run boot [pressTick 100, pressTick 150])
   \<and> alertActive (loop (run boot [pressTick 100, pressTick 150]) (motionTick 30151))
   \<and> buzzer (loop (run boot [pressTick 100, pressTick 150]) (motionTick 30151))
   \<and> DigitalWrite BUZZER_PIN HIGH
        \<in> set (tickEvents (run boot [pressTick 100, pressTick 150]) (motionTick 30151))"
proof -
  define V where "V = run boot [pressTick 100, pressTick 150]"
  define m where "m = motionTick 30151"
  have v: "vipMode V" "vipDuration < now m - vipStartTime V" "\<not> alertActive V"
    "card m = None" "lastMotionTime V = 0"
    unfolding V_def m_def by code_simp+
  have ms: "motionSeen V m"
    by (simp add: motionSeen_def v(5) m_def pulseToCM_exact eval_consts)
  have nv: "\<not> vipMode (vipSteps m V)" using v(1,2) by (simp add: vipSteps_vipMode)
  have a: "alertActive (loop V m)" using v(3,4) ms nv by (simp add: loop_alertActive)
  have b: "buzzer (loop V m)" using v(3,4) ms nv by (simp add: loop_buzzer)
  have e: "DigitalWrite BUZZER_PIN HIGH \<in> set (tickEvents V m)"
    using v(3,4) ms nv by (simp add: tickEvents_split emitted_rest motionSeen_def)
  show ?thesis using v(1,3) a b e unfolding V_def m_def by blast
qed

text \<open>
  C5, amended. Whenever all three scan flags are set and \<open>vipMode\<close> is false at the start
  of a call of \<open>loop\<close>, that call sets \<open>vipMode\<close> and sets \<open>vipStartTime\<close> to its clock
  value. The flags are set by scans in calls that start with no alert active and are
  cleared when VIP mode ends: so for every run in which \<open>vipMode\<close> stays false and each
  of the three cards was scanned at least once in a call that started with no alert
  active (in any order), the next call activates VIP mode. A run from the initial
  state in which the button is released and only one and the same card is ever
  scanned, any number of times, never activates VIP mode.
\<close>

theorem auto_vip_activation:
  "(\<not> vipMode s \<and> card1Scanned s \<and> card2Scanned s \<and> card3Scanned s \<longrightarrow>
      vipMode (loop s i) \<and> vipStartTime (loop s i) = now i)
   \<and> (neverVip s ins \<and> scannedIdle s ins uid1 \<and> scannedIdle s ins uid2
        \<and> scannedIdle s ins uid3 \<longrightarrow>
      vipMode (loop (run s ins) i) \<and> vipStartTime (loop (run s ins) i) = now i)
   \<and> ((\<forall>j \<in> set ins. level (poll1 j) \<and> (card j = None \<or> card j = Some u)) \<longrightarrow>
      \<not> vipMode (run boot ins))"
proof (intro conjI impI)
  assume "\<not> vipMode s \<and> card1Scanned s \<and> card2Scanned s \<and> card3Scanned s"
  then show "vipMode (loop s i)" "vipStartTime (loop s i) = now i"
    using loop_auto_vip[of s i] by blast+
next
  assume a: "neverVip s ins \<and> scannedIdle s ins uid1 \<and> scannedIdle s ins uid2
    \<and> scannedIdle s ins uid3"
  then have "\<not> vipMode (run s ins)" "card1Scanned (run s ins)" "card2Scanned (run s ins)"
    "card3Scanned (run s ins)"
    using neverVip_run flag1_accumulates flag2_accumulates flag3_accumulates by blast+
  then show "vipMode (loop (run s ins) i)" "vipStartTime (loop (run s ins) i) = now i"
    using loop_auto_vip[of "run s ins" i] by blast+
next
  assume "\<forall>j \<in> set ins. level (poll1 j) \<and> (card j = None \<or> card j = Some u)"
  then have "oneCard u (run boot ins)"
    using oneCard_run[OF oneCard_boot] by blast
  then show "\<not> vipMode (run boot ins)" by (simp add: oneCard_def)
qed

theorem auto_vip_activation_witness:
  "neverVip boot [cardTick 100 uid3, cardTick 300 uid1, cardTick 500 uid2]
   \<and> scannedIdle boot [cardTick 100 uid3, cardTick 300 uid1, cardTick 500 uid2] uid1
   \<and> scannedIdle boot [cardTick 100 uid3, cardTick 300 uid1, cardTick 500 uid2] uid2
   \<and> scannedIdle boot [cardTick 100 uid3, cardTick 300 uid1, cardTick 500 uid2] uid3
   \<and> card1Scanned (run boot [cardTick 100 uid3, cardTick 300 uid1, cardTick 500 uid2])
   \<and> card2Scanned (run boot [cardTick 100 uid3, cardTick 300 uid1, cardTick 500 uid2])
   \<and> card3Scanned (run boot [cardTick 100 uid3, cardTick 300 uid1, cardTick 500 uid2])
   \<and> vipMode (loop (run boot [cardTick 100 uid3, cardTick 300 uid1, cardTick 500 uid2])
        (idleTick 700))
   \<and> vipStartTime (loop (run boot [cardTick 100 uid3, cardTick 300 uid1, cardTick 500 uid2])
        (idleTick 700)) = 700
   \<and> level (poll1 (cardTick 100 uid1)) \<and> card (cardTick 100 uid1) = Some (cardOf uid1)
   \<and> level (poll1 (cardTick 300 uid1)) \<and> card (cardTick 300 uid1) = Some (cardOf uid1)
   \<and> level (poll1 (cardTick 500 uid1)) \<and> card (cardTick 500 uid1) = Some (cardOf uid1)
   \<and> level (poll1 (idleTick 700)) \<and> card (idleTick 700) = None
   \<and> \<not> vipMode (run boot [cardTick 100 uid1, cardTick 300 uid1, cardTick 500 uid1, idleTick 700])"
proof -
  define ins where "ins = [cardTick 100 uid3, cardTick 300 uid1, cardTick 500 uid2]"
  define one where "one = [cardTick 100 uid1, cardTick 300 uid1, cardTick 500 uid1, idleTick 700]"
  have h: "neverVip boot ins" "scannedIdle boot ins uid1" "scannedIdle boot ins uid2"
    "scannedIdle boot ins uid3"
    unfolding ins_def by code_simp+
  have f: "\<not> vipMode (run boot ins)" "card1Scanned (run boot ins)" "card2Scanned (run boot ins)"
    "card3Scanned (run boot ins)"
    unfolding ins_def by code_simp+
  have e: "level (poll1 (cardTick 100 uid1))" "card (cardTick 100 uid1) = Some (cardOf uid1)"
    "level (poll1 (cardTick 300 uid1))" "card (cardTick 300 uid1) = Some (cardOf uid1)"
    "level (poll1 (cardTick 500 uid1))" "card (cardTick 500 uid1) = Some (cardOf uid1)"
    "level (poll1 (idleTick 700))" "card (idleTick 700) = None"
    by code_simp+
  then have o: "\<forall>j \<in> set one. level (poll1 j) \<and> (card j = None \<or> card j = Some (cardOf uid1))"
    unfolding one_def by simp
  have n: "now (idleTick 700) = 700" by code_simp
  have c1: "vipMode (loop (run boot ins) (idleTick 700))
      \<and> vipStartTime (loop (run boot ins) (idleTick 700)) = now (idleTick 700)"
    using auto_vip_activation[of boot "idleTick 700" ins] h by blast
  have c2: "vipMode (loop (run boot ins) (idleTick 700))"
    using auto_vip_activation[of "run boot ins" "idleTick 700"] f by blast
  have c3: "\<not> vipMode (run boot one)"
    using auto_vip_activation[of boot "idleTick 700" one "cardOf uid1"] o by blast
  show ?thesis
    using h f e c1 c3 unfolding n ins_def one_def by blast
qed

text \<open>
  C5 as stated fails, in two ways. First run: the alert of the first motion is
  acknowledged with the card \<open>uid1\<close>, then \<open>uid2\<close> and \<open>uid3\<close> are scanned; \<open>vipMode\<close> is
  false throughout, all three cards were scanned, and the next call does not activate
  VIP mode. Second run: \<open>uid1\<close> is scanned, VIP mode is then switched on with the button
  and expires, then \<open>uid2\<close> and \<open>uid3\<close> are scanned, each scan in a call that starts with
  \<open>vipMode\<close> false; the next call does not activate VIP mode.
\<close>

theorem auto_vip_counterexample:
  "scanned boot [motionTick 2000, cardTick 2040 uid1, cardTick 2300 uid2, cardTick 2500 uid3] uid1
   \<and> scanned boot [motionTick 2000, cardTick 2040 uid1, cardTick 2300 uid2, cardTick 2500 uid3] uid2
   \<and> scanned boot [motionTick 2000, cardTick 2040 uid1, cardTick 2300 uid2, cardTick 2500 uid3] uid3
   \<and> neverVip boot [motionTick 2000, cardTick 2040 uid1, cardTick 2300 uid2, cardTick 2500 uid3]
   \<and> \<not> vipMode (loop (run boot [motionTick 2000, cardTick 2040 uid1, cardTick 2300 uid2,
          cardTick 2500 uid3]) (idleTick 2700))
   \<and> scanned boot [cardTick 100 uid1, pressTick 200, pressTick 250, idleTick 30251,
        cardTick 30300 uid2, cardTick 30400 uid3] uid1
   \<and> scanned boot [cardTick 100 uid1, pressTick 200, pressTick 250, idleTick 30251,
        cardTick 30300 uid2, cardTick 30400 uid3] uid2
   \<and> scanned boot [cardTick 100 uid1, pressTick 200, pressTick 250, idleTick 30251,
        cardTick 30300 uid2, cardTick 30400 uid3] uid3
   \<and> \<not> vipMode (run boot [cardTick 100 uid1, pressTick 200, pressTick 250, idleTick 30251,
        cardTick 30300 uid2, cardTick 30400 uid3])
   \<and> \<not> vipMode (loop (run boot [cardTick 100 uid1, pressTick 200, pressTick 250, idleTick 30251,
        cardTick 30300 uid2, cardTick 30400 uid3]) (idleTick 30500))"
  unfolding scanned.simps(2)[of boot] neverVip.simps(2)[of boot] run_Cons[of boot "motionTick 2000"]
    alerted_reached
  by code_simp

text \<open>
  C1, amended. For every poll, \<open>buttonPressed\<close> returns true exactly when the level read
  is active (LOW) and more than 40 ms (modulo \<open>2 ^ 32\<close>) lie between the clock at the
  comparison and the clock taken at the last poll that read a level different from
  the one before; the statics afterwards hold the level read and that clock. So a
  bounce shorter than the window is suppressed, and a poll that reads HIGH returns
  false; but while the button is held beyond the window every poll returns true
  again: one true for each poll, not one for each press.
\<close>

theorem buttonPressed_level_triggered:
  "fst (buttonPressed r b) =
     (\<not> level r \<and> 40 < tCheck r - (if level r \<noteq> lastState b then tChange r else lastBounce b))
   \<and> snd (buttonPressed r b) =
     \<lparr>lastBounce = (if level r \<noteq> lastState b then tChange r else lastBounce b),
      lastState = level r\<rparr>
   \<and> (\<not> lastState b \<and> (\<forall>r \<in> set rs. \<not> level r \<and> 40 < tCheck r - lastBounce b) \<longrightarrow>
        pollAll b rs = replicate (length rs) True)"
  using buttonPressed_fst[of r b] buttonPressed_snd[of r b] held_keeps_firing[of b rs]
  by blast

theorem buttonPressed_level_triggered_witness:
  "\<not> lastState \<lparr>lastBounce = 100, lastState = LOW\<rparr>
   \<and> \<not> level \<lparr>level = LOW, tChange = 150, tCheck = 150\<rparr>
   \<and> 40 < tCheck \<lparr>level = LOW, tChange = 150, tCheck = 150\<rparr>
          - lastBounce \<lparr>lastBounce = 100, lastState = LOW\<rparr>
   \<and> \<not> level \<lparr>level = LOW, tChange = 200, tCheck = 200\<rparr>
   \<and> 40 < tCheck \<lparr>level = LOW, tChange = 200, tCheck = 200\<rparr>
          - lastBounce \<lparr>lastBounce = 100, lastState = LOW\<rparr>
   \<and> pollAll \<lparr>lastBounce = 100, lastState = LOW\<rparr>
         [\<lparr>level = LOW, tChange = 150, tCheck = 150\<rparr>,
          \<lparr>level = LOW, tChange = 200, tCheck = 200\<rparr>] = [True, True]"
proof -
  define b :: button_state where "b = \<lparr>lastBounce = 100, lastState = LOW\<rparr>"
  define r1 :: button_read where "r1 = \<lparr>level = LOW, tChange = 150, tCheck = 150\<rparr>"
  define r2 :: button_read where "r2 = \<lparr>level = LOW, tChange = 200, tCheck = 200\<rparr>"
  have h: "\<not> lastState b" "\<not> level r1" "40 < tCheck r1 - lastBounce b"
    "\<not> level r2" "40 < tCheck r2 - lastBounce b"
    unfolding b_def r1_def r2_def by simp_all
  then have a: "\<forall>r \<in> set [r1, r2]. \<not> level r \<and> 40 < tCheck r - lastBounce b" by simp
  have "pollAll b [r1, r2] = replicate (length [r1, r2]) True"
    using buttonPressed_level_triggered[of _ b "[r1, r2]"] h(1) a by blast
  then have "pollAll b [r1, r2] = [True, True]" by simp
  then show ?thesis using h unfolding b_def r1_def r2_def by blast
qed

text \<open>
  C1 as stated fails: from the initial statics, one press (the level goes LOW once and
  stays LOW) polled at 100, 150, 200 and 250 ms returns true three times.
\<close>

theorem buttonPressed_held_counterexample:
  "pollAll (button boot)
     [\<lparr>level = LOW, tChange = 100, tCheck = 100\<rparr>, \<lparr>level = LOW, tChange = 150, tCheck = 150\<rparr>,
      \<lparr>level = LOW, tChange = 200, tCheck = 200\<rparr>, \<lparr>level = LOW, tChange = 250, tCheck = 250\<rparr>]
   = [False, True, True, True]"
  by code_simp

text \<open>
  C10. After every run of \<open>loop\<close> from the initial state, the buzzer output is HIGH
  only while an alert is active. Every call of \<open>loop\<close> keeps this; every call that
  clears the alert writes the buzzer LOW and leaves it LOW; and the buzzer is written
  HIGH only in a call that ends with the alert active and VIP mode off.
\<close>

theorem buzzer_only_while_alerting:
  "(buzzer (run boot ins) \<longrightarrow> alertActive (run boot ins))
   \<and> ((buzzer s \<longrightarrow> alertActive s) \<longrightarrow> buzzer (loop s i) \<longrightarrow> alertActive (loop s i))
   \<and> (alertActive s \<and> \<not> alertActive (loop s i) \<longrightarrow>
        \<not> buzzer (loop s i) \<and> DigitalWrite BUZZER_PIN LOW \<in> set (tickEvents s i))
   \<and> (DigitalWrite BUZZER_PIN HIGH \<in> set (tickEvents s i) \<longrightarrow>
        alertActive (loop s i) \<and> \<not> vipMode (loop s i))"
proof (intro conjI impI)
  show "alertActive (run boot ins)" if "buzzer (run boot ins)"
    using run_inv[of boot ins] boot_buzzer that by blast
  show "alertActive (loop s i)" if "buzzer s \<longrightarrow> alertActive s" "buzzer (loop s i)"
    using loop_inv[OF that(1), of i] that(2) by blast
  show "\<not> buzzer (loop s i)" if "alertActive s \<and> \<not> alertActive (loop s i)"
    using alert_cleared[of s i] that by blast
  show "DigitalWrite BUZZER_PIN LOW \<in> set (tickEvents s i)"
    if "alertActive s \<and> \<not> alertActive (loop s i)"
    using alert_cleared[of s i] that by blast
  show "alertActive (loop s i)" if "DigitalWrite BUZZER_PIN HIGH \<in> set (tickEvents s i)"
    using buzzer_high_written[OF that] by blast
  show "\<not> vipMode (loop s i)" if "DigitalWrite BUZZER_PIN HIGH \<in> set (tickEvents s i)"
    using buzzer_high_written[OF that] by blast
qed

theorem buzzer_only_while_alerting_witness:
  "buzzer (run boot [motionTick 2000]) \<and> alertActive (run boot [motionTick 2000])
   \<and> buzzer (loop alerted (idleTick 2040)) \<and> alertActive (loop alerted (idleTick 2040))
   \<and> alertActive alerted \<and> \<not> alertActive (loop alerted (cardTick 2040 uid2))
   \<and> \<not> buzzer (loop alerted (cardTick 2040 uid2))
   \<and> DigitalWrite BUZZER_PIN LOW \<in> set (tickEvents alerted (cardTick 2040 uid2))
   \<and> DigitalWrite BUZZER_PIN HIGH \<in> set (tickEvents (run alerted [idleTick 3000]) (idleTick 4000))
   \<and> alertActive (loop (run alerted [idleTick 3000]) (idleTick 4000))
   \<and> \<not> vipMode (loop (run alerted [idleTick 3000]) (idleTick 4000))"
proof -
  have h1: "buzzer (run boot [motionTick 2000])"
    unfolding alerted_run by code_simp
  have h2: "buzzer alerted \<longrightarrow> alertActive alerted" "buzzer (loop alerted (idleTick 2040))"
    by code_simp+
  have h3: "alertActive alerted \<and> \<not> alertActive (loop alerted (cardTick 2040 uid2))"
    by code_simp
  have h4: "DigitalWrite BUZZER_PIN HIGH
      \<in> set (tickEvents (run alerted [idleTick 3000]) (idleTick 4000))"
    by code_simp
  have c1: "alertActive (run boot [motionTick 2000])"
    using buzzer_only_while_alerting[of "[motionTick 2000]"] h1 by blast
  have c2: "alertActive (loop alerted (idleTick 2040))"
    using buzzer_only_while_alerting[of "[]" alerted "idleTick 2040"] h2 by blast
  have c3: "\<not> buzzer (loop alerted (cardTick 2040 uid2))
      \<and> DigitalWrite BUZZER_PIN LOW \<in> set (tickEvents alerted (cardTick 2040 uid2))"
    using buzzer_only_while_alerting[of "[]" alerted "cardTick 2040 uid2"] h3 by blast
  have c4: "alertActive (loop (run alerted [idleTick 3000]) (idleTick 4000))
      \<and> \<not> vipMode (loop (run alerted [idleTick 3000]) (idleTick 4000))"
    using buzzer_only_while_alerting[of "[]" "run alerted [idleTick 3000]" "idleTick 4000"] h4
    by blast
  show ?thesis using h1 h2 h3 h4 c1 c2 c3 c4 by blast
qed

end
